theory Spec2Isabelle
  imports Complex_Main "HOL-Library.Product_Lexorder"
begin

section \<open>Conventions of the embedding\<close>

text \<open>
  JavaScript strings are sequences of UTF-16 code units; \<open>s.length\<close> counts code units and
  the regular expressions of the sources (none has the \<open>u\<close> flag) work on code units. A
  string is therefore a list of code units, each a natural number. JavaScript numbers are
  modelled as real numbers (no rounding, no NaN, no infinities); where the source relies on
  \<open>Infinity\<close> as a start value, the model uses \<open>option\<close>.
\<close>

type_synonym jsstring = "nat list"

definition js :: "string \<Rightarrow> jsstring" where
  "js s = map of_char s"

section \<open>utils.ts: normalisation and tokenisation\<close>

definition isLowerAZ :: "nat \<Rightarrow> bool" where
  "isLowerAZ c = (97 \<le> c \<and> c \<le> 122)"

definition isUpperAZ :: "nat \<Rightarrow> bool" where
  "isUpperAZ c = (65 \<le> c \<and> c \<le> 90)"

definition isDigit :: "nat \<Rightarrow> bool" where
  "isDigit c = (48 \<le> c \<and> c \<le> 57)"

text \<open>The class \<open>\s\<close> of ECMAScript, which is also what \<open>String.prototype.trim\<close> strips.\<close>

definition isJsSpace :: "nat \<Rightarrow> bool" where
  "isJsSpace c = (c \<in> {9, 10, 11, 12, 13, 32, 160, 5760, 8232, 8233, 8239, 8287, 12288, 65279}
                  \<or> (8192 \<le> c \<and> c \<le> 8202))"

definition trim :: "jsstring \<Rightarrow> jsstring" where
  "trim s = rev (dropWhile isJsSpace (rev (dropWhile isJsSpace s)))"

text \<open>\<open>s.substring(a, b)\<close> for \<open>0 \<le> a \<le> b\<close> (indices beyond the end are clamped).\<close>

definition substring :: "jsstring \<Rightarrow> nat \<Rightarrow> nat \<Rightarrow> jsstring" where
  "substring s a b = take (b - a) (drop a s)"

text \<open>
  \<open>s.match(/[C]+/g) || []\<close> for a character class \<open>C\<close>: the scan skips to the leftmost
  code unit of the class, takes the longest run (the quantifier is greedy) and resumes
  after it.
\<close>

function runs :: "(nat \<Rightarrow> bool) \<Rightarrow> jsstring \<Rightarrow> jsstring list" where
  "runs P s =
     (case dropWhile (\<lambda>c. \<not> P c) s of
        [] \<Rightarrow> []
      | c # cs \<Rightarrow> takeWhile P (c # cs) # runs P (dropWhile P cs))"
  by pat_completeness auto
termination
proof (relation "measure (\<lambda>(P, s). length s)", goal_cases)
  case 1
  show ?case by simp
next
  case (2 P s c cs)
  have "length (dropWhile P cs) \<le> length cs"
    by (rule length_dropWhile_le)
  moreover have "length (c # cs) \<le> length s"
    using length_dropWhile_le [of "\<lambda>c. \<not> P c" s] 2 by simp
  ultimately show ?case by simp
qed

declare runs.simps [simp del]

definition normalizeQuotes :: "jsstring \<Rightarrow> jsstring" where
  "normalizeQuotes s =
     map (\<lambda>c. if c \<in> {8220, 8221, 8222, 8223, 8243, 171, 187, 65282} then 34 else c)
       (map (\<lambda>c. if c \<in> {8216, 8217, 8218, 8219, 8242, 700, 65287, 96} then 39 else c) s)"

text \<open>
  \<open>normalizeText\<close> applies its six single-code-unit replacements one after the other
  (in the insertion order of the object literal).
\<close>

definition replaceUnit :: "nat \<Rightarrow> nat \<Rightarrow> jsstring \<Rightarrow> jsstring" where
  "replaceUnit old new s = map (\<lambda>c. if c = old then new else c) s"

definition normalizeText :: "jsstring \<Rightarrow> jsstring" where
  "normalizeText text =
     fold (\<lambda>(old, new) t. replaceUnit old new t)
       [(8220, 34), (8221, 34), (8216, 39), (8217, 39), (8212, 45), (8211, 45)] text"

text \<open>
  \<open>String.prototype.toLowerCase\<close> is a function of the platform (Unicode case mapping can
  change the length of a string and depends on context); the functions that call it take
  it as the parameter \<open>lc\<close>. On strings of ASCII letters, digits and underscores it is
  \<open>asciiLower\<close>.
\<close>

definition asciiLower :: "jsstring \<Rightarrow> jsstring" where
  "asciiLower s = map (\<lambda>c. if isUpperAZ c then c + 32 else c) s"

definition stripApostrophes :: "jsstring \<Rightarrow> jsstring" where
  "stripApostrophes t = rev (dropWhile (\<lambda>c. c = 39) (rev (dropWhile (\<lambda>c. c = 39) t)))"

definition wordsOnlyLower :: "(jsstring \<Rightarrow> jsstring) \<Rightarrow> jsstring \<Rightarrow> jsstring list" where
  "wordsOnlyLower lc s =
     (let txt = normalizeQuotes (lc s);
          toks = runs (\<lambda>c. isLowerAZ c \<or> c = 39) txt
      in filter (\<lambda>t. length t > 0) (map stripApostrophes toks))"

text \<open>The test \<open>/^[a-z]+(?:'[a-z]+)?$/\<close>.\<close>

definition isAlphaToken :: "jsstring \<Rightarrow> bool" where
  "isAlphaToken t =
     (takeWhile isLowerAZ t \<noteq> [] \<and>
      (case dropWhile isLowerAZ t of
         [] \<Rightarrow> True
       | c # r \<Rightarrow> c = 39 \<and> r \<noteq> [] \<and> list_all isLowerAZ r))"

definition alphaTokens :: "jsstring list \<Rightarrow> jsstring list" where
  "alphaTokens tokens = filter isAlphaToken tokens"

subsection \<open>sentenceSpans\<close>

definition isTerm :: "nat \<Rightarrow> bool" where
  "isTerm c = (c = 46 \<or> c = 33 \<or> c = 63)"

text \<open>
  One attempt of \<open>/[^.!?]*[.!?]/\<close> anchored at index \<open>i\<close>: the star takes every code unit
  up to the first terminator (or the end); the class that follows needs a terminator
  there. Giving back code units does not help, because each of them is a non-terminator.
  The result is the end of the match.
\<close>

definition sentSplit_at :: "jsstring \<Rightarrow> nat \<Rightarrow> nat option" where
  "sentSplit_at text i =
     (let j = i + length (takeWhile (\<lambda>c. \<not> isTerm c) (drop i text))
      in if j < length text then Some (j + 1) else None)"

text \<open>
  \<open>sentSplit.exec(text)\<close> with the \<open>g\<close> flag: the attempts start at \<open>lastIndex\<close> and move
  right until one succeeds; the result is the index and the end of the match.
\<close>

function sentSplit_exec :: "jsstring \<Rightarrow> nat \<Rightarrow> (nat \<times> nat) option" where
  "sentSplit_exec text i =
     (if i > length text then None
      else case sentSplit_at text i of
             Some e \<Rightarrow> Some (i, e)
           | None \<Rightarrow> sentSplit_exec text (i + 1))"
  by pat_completeness auto
termination
  by (relation "measure (\<lambda>(text, i). Suc (length text) - i)") auto

declare sentSplit_exec.simps [simp del]

lemma sentSplit_at_bounds:
  "sentSplit_at text i = Some e \<Longrightarrow> i < e \<and> e \<le> length text"
  by (auto simp: sentSplit_at_def Let_def split: if_splits)

lemma sentSplit_exec_bounds:
  "sentSplit_exec text i = Some (idx, e) \<Longrightarrow> i \<le> idx \<and> idx < e \<and> e \<le> length text"
proof (induction "text" i rule: sentSplit_exec.induct)
  case (1 "text" i)
  note eq = sentSplit_exec.simps [of "text" i]
  have le: "\<not> length text < i"
    using eq "1.prems" by (cases "length text < i") simp_all
  show ?case
  proof (cases "sentSplit_at text i")
    case None
    have "sentSplit_exec text (i + 1) = Some (idx, e)"
      using eq "1.prems" le None by simp
    from "1.IH" [OF le None this] show ?thesis by simp
  next
    case (Some e')
    have "idx = i \<and> e = e'"
      using eq "1.prems" le Some by simp
    with sentSplit_at_bounds [OF Some] show ?thesis by simp
  qed
qed

text \<open>
  The \<open>while\<close> loop of \<open>sentenceSpans\<close>; its state is the regular expression's
  \<open>lastIndex\<close>, the array \<open>spans\<close> and the variable \<open>lastEnd\<close>.
\<close>

function sentenceSpans_loop ::
  "jsstring \<Rightarrow> nat \<Rightarrow> (nat \<times> nat) list \<Rightarrow> nat \<Rightarrow> (nat \<times> nat) list \<times> nat" where
  "sentenceSpans_loop text lastIndex spans lastEnd =
     (case sentSplit_exec text lastIndex of
        None \<Rightarrow> (spans, lastEnd)
      | Some (idx, e) \<Rightarrow> sentenceSpans_loop text e (spans @ [(idx, e)]) e)"
  by pat_completeness auto
termination
proof (relation "measure (\<lambda>(text, lastIndex, spans, lastEnd). Suc (length text) - lastIndex)",
    goal_cases)
  case 1
  show ?case by simp
next
  case (2 tx lastIndex spans lastEnd x idx e)
  then have "sentSplit_exec tx lastIndex = Some (idx, e)" by simp
  from sentSplit_exec_bounds [OF this] show ?case by auto
qed

declare sentenceSpans_loop.simps [simp del]

definition sentenceSpans :: "jsstring \<Rightarrow> (nat \<times> nat) list" where
  "sentenceSpans text =
     (case sentenceSpans_loop text 0 [] 0 of
        (spans, lastEnd) \<Rightarrow>
          if lastEnd < length text then spans @ [(lastEnd, length text)] else spans)"

text \<open>
  \<open>chain a spans b\<close>: the spans tile \<open>[a, b)\<close>. None is empty, the first starts at \<open>a\<close>,
  each starts where the one before it ends, and the last ends at \<open>b\<close>.
\<close>

fun chain :: "nat \<Rightarrow> (nat \<times> nat) list \<Rightarrow> nat \<Rightarrow> bool" where
  "chain a [] b = (a = b)"
| "chain a ((s, e) # r) b = (s = a \<and> s < e \<and> chain e r b)"

subsection \<open>countItems and getNgrams\<close>

text \<open>
  A JavaScript \<open>Map\<close> keeps its keys in insertion order and \<open>set\<close> on a present key
  keeps the key's position: an association list with update in place.
\<close>

type_synonym ('k, 'v) jsmap = "('k \<times> 'v) list"

fun map_set :: "'k \<Rightarrow> 'v \<Rightarrow> ('k, 'v) jsmap \<Rightarrow> ('k, 'v) jsmap" where
  "map_set k v [] = [(k, v)]"
| "map_set k v ((k', v') # m) = (if k' = k then (k, v) # m else (k', v') # map_set k v m)"

definition map_get :: "('k, 'v) jsmap \<Rightarrow> 'k \<Rightarrow> 'v option" where
  "map_get m k = map_of m k"

definition countItems :: "'a list \<Rightarrow> ('a, nat) jsmap" where
  "countItems arr =
     fold (\<lambda>x m. map_set x ((case map_get m x of None \<Rightarrow> 0 | Some c \<Rightarrow> c) + 1) m) arr []"

definition joinSpace :: "jsstring list \<Rightarrow> jsstring" where
  "joinSpace ws = (case ws of [] \<Rightarrow> [] | w # r \<Rightarrow> w @ concat (map (\<lambda>x. 32 # x) r))"

text \<open>
  The loop runs for \<open>i = 0, ..., words.length - n\<close>, and not at all when \<open>n\<close> is larger
  than the number of words.
\<close>

definition getNgrams :: "jsstring list \<Rightarrow> nat \<Rightarrow> jsstring list" where
  "getNgrams ws n =
     (if n > length ws then []
      else map (\<lambda>i. joinSpace (take n (drop i ws))) [0 ..< Suc (length ws - n)])"

section \<open>wordfreq.ts\<close>

definition uncurlQuotes :: "jsstring \<Rightarrow> jsstring" where
  "uncurlQuotes s =
     replaceUnit 8221 34 (replaceUnit 8220 34 (replaceUnit 8217 39 (replaceUnit 8216 39 s)))"

text \<open>\<open>lc\<close> stands for \<open>toLocaleLowerCase('en')\<close>.\<close>

definition normalizeWord_en :: "(jsstring \<Rightarrow> jsstring) \<Rightarrow> jsstring \<Rightarrow> jsstring" where
  "normalizeWord_en lc s = trim (lc (uncurlQuotes s))"

definition isAlnum :: "nat \<Rightarrow> bool" where
  "isAlnum c = (isUpperAZ c \<or> isLowerAZ c \<or> isDigit c)"

text \<open>
  \<open>WORD_RE = /[A-Za-z0-9]+(?:[''-][A-Za-z0-9]+)*/g\<close>. A match starts at the leftmost
  letter or digit and takes the longest run of them; then, as long as an apostrophe or a
  hyphen is followed by a letter or digit, it takes that separator and the longest run
  after it. The greedy choices never have to be undone, because the group may repeat
  zero times. \<open>wordTail\<close> is the repeated group: it returns what the group matches and
  what is left.
\<close>

function wordTail :: "jsstring \<Rightarrow> jsstring \<times> jsstring" where
  "wordTail s =
     (case s of
        sep # c # r \<Rightarrow>
          if (sep = 39 \<or> sep = 45) \<and> isAlnum c then
            (case wordTail (dropWhile isAlnum (c # r)) of
               (m, rest) \<Rightarrow> (sep # takeWhile isAlnum (c # r) @ m, rest))
          else ([], s)
      | _ \<Rightarrow> ([], s))"
  by pat_completeness auto
termination
proof (relation "measure length", goal_cases)
  case 1
  show ?case by simp
next
  case (2 s sep cs c r)
  have "length (dropWhile isAlnum (c # r)) \<le> length (c # r)"
    by (rule length_dropWhile_le)
  with 2 show ?case by simp
qed

declare wordTail.simps [simp del]

lemma wordTail_length: "length (snd (wordTail s)) \<le> length s"
proof (induction s rule: wordTail.induct)
  case (1 s)
  note eq = wordTail.simps [of s]
  show ?case
  proof (cases s)
    case Nil
    with eq show ?thesis by simp
  next
    case (Cons sep cs)
    show ?thesis
    proof (cases cs)
      case Nil
      with Cons eq show ?thesis by simp
    next
      case (Cons c r)
      note s = \<open>s = sep # cs\<close> Cons
      show ?thesis
      proof (cases "(sep = 39 \<or> sep = 45) \<and> isAlnum c")
        case False
        with s eq show ?thesis by auto
      next
        case True
        have ih: "length (snd (wordTail (dropWhile isAlnum (c # r)))) \<le>
                  length (dropWhile isAlnum (c # r))"
          using "1.IH" [OF \<open>s = sep # cs\<close> Cons True] .
        have "length (dropWhile isAlnum (c # r)) \<le> length (c # r)"
          by (rule length_dropWhile_le)
        with ih have "length (snd (wordTail (dropWhile isAlnum (c # r)))) \<le> length s"
          using s by simp
        moreover have "snd (wordTail s) = snd (wordTail (dropWhile isAlnum (c # r)))"
          using eq s True by (simp split: prod.splits)
        ultimately show ?thesis by simp
      qed
    qed
  qed
qed

function wordMatches :: "jsstring \<Rightarrow> jsstring list" where
  "wordMatches s =
     (case dropWhile (\<lambda>c. \<not> isAlnum c) s of
        [] \<Rightarrow> []
      | c # cs \<Rightarrow>
          (case wordTail (dropWhile isAlnum (c # cs)) of
             (m, rest) \<Rightarrow> (takeWhile isAlnum (c # cs) @ m) # wordMatches rest))"
  by pat_completeness auto
termination
proof (relation "measure length", goal_cases)
  case 1
  show ?case by simp
next
  case (2 s c cs m rest)
  have a: "length (c # cs) \<le> length s"
    using length_dropWhile_le [of "\<lambda>c. \<not> isAlnum c" s] 2(1) by simp
  have "dropWhile (\<lambda>c. \<not> isAlnum c) s \<noteq> []" using 2(1) by simp
  from hd_dropWhile [OF this] have c: "isAlnum c" using 2(1) by simp
  have b: "length (dropWhile isAlnum (c # cs)) \<le> length cs"
    using c length_dropWhile_le [of isAlnum cs] by simp
  have "snd (wordTail (dropWhile isAlnum (c # cs))) = rest"
    using 2(2) [symmetric] by (simp only: snd_conv)
  with wordTail_length [of "dropWhile isAlnum (c # cs)"] b
  have "length rest \<le> length cs" by simp
  with a show ?case by simp
qed

declare wordMatches.simps [simp del]

text \<open>
  \<open>z\<close> starts at \<open>Infinity\<close>, which is \<open>None\<close> here; \<open>Math.min(Infinity, x)\<close> is \<open>x\<close>.
\<close>

definition combineZipfSimple :: "jsstring list \<Rightarrow> (jsstring \<Rightarrow> real) \<Rightarrow> real" where
  "combineZipfSimple tokens getZipf =
     (if length tokens = 0 then 0
      else
        case fold (\<lambda>t z. Some (case z of None \<Rightarrow> getZipf t | Some a \<Rightarrow> min a (getZipf t)))
               tokens None of
          None \<Rightarrow> 0
        | Some z \<Rightarrow> z)"

record WordfreqEn =
  wf_map :: "(jsstring, real) jsmap"
  minZipf :: real

text \<open>An argument of type \<open>string | null | undefined\<close>.\<close>

datatype jsinput = JNull | JUndefined | JString jsstring

definition getOr :: "WordfreqEn \<Rightarrow> jsstring \<Rightarrow> real" where
  "getOr wfq w = (case map_get (wf_map wfq) w of Some z \<Rightarrow> z | None \<Rightarrow> minZipf wfq)"

definition zipfFrequency :: "(jsstring \<Rightarrow> jsstring) \<Rightarrow> WordfreqEn \<Rightarrow> jsinput \<Rightarrow> real" where
  "zipfFrequency lc wfq input =
     (case input of
        JNull \<Rightarrow> 0
      | JUndefined \<Rightarrow> 0
      | JString s \<Rightarrow>
          if s = [] then 0
          else
            let text = normalizeWord_en lc s;
                tokens = wordMatches text
            in if length tokens > 1 then combineZipfSimple tokens (getOr wfq)
               else getOr wfq text)"

definition frequency :: "(jsstring \<Rightarrow> jsstring) \<Rightarrow> WordfreqEn \<Rightarrow> jsinput \<Rightarrow> real" where
  "frequency lc wfq input =
     (let zipf = zipfFrequency lc wfq input
      in if zipf \<le> 0 then 0 else 10 powr (zipf - 9))"

subsection \<open>loadWordfreq\<close>

text \<open>
  Reading, unzipping and decoding the file are outside the model: \<open>loadWordfreq\<close> starts
  from the decoded array, given as its first element (the header, \<open>None\<close> when it is
  missing or null) and the remaining elements (the bins, each a list of words or null).
\<close>

record MsgpackHeader =
  format :: jsstring
  version :: int

datatype load_error = UnexpectedFormat "MsgpackHeader option"

definition bucketZipf :: "nat \<Rightarrow> real" where
  "bucketZipf i = (let cB = - int i in real_of_int (cB + 900) / 100)"

fun bins_loop ::
  "nat \<Rightarrow> jsstring list option list \<Rightarrow> (jsstring, real) jsmap \<Rightarrow> (jsstring, real) jsmap" where
  "bins_loop i [] m = m"
| "bins_loop i (words # rest) m =
     bins_loop (i + 1) rest
       (case words of
          None \<Rightarrow> m
        | Some ws \<Rightarrow>
            if length ws > 0 then fold (\<lambda>w m'. map_set w (bucketZipf i) m') ws m else m)"

definition loadWordfreq ::
  "MsgpackHeader option \<Rightarrow> jsstring list option list \<Rightarrow> load_error + WordfreqEn" where
  "loadWordfreq header bins =
     (case header of
        None \<Rightarrow> Inl (UnexpectedFormat header)
      | Some h \<Rightarrow>
          if format h \<noteq> js ''cB'' \<or> version h \<noteq> 1 then Inl (UnexpectedFormat header)
          else Inr \<lparr>wf_map = bins_loop 0 bins [], minZipf = 0\<rparr>)"

section \<open>pos-tagger.ts\<close>

text \<open>
  The tagger itself (\<open>wink-pos-tagger\<close>) is an external library: \<open>tagSentence\<close> is a
  parameter. Of a tagged token the code reads the fields \<open>value\<close> and \<open>pos\<close> only; a
  missing \<open>pos\<close> is \<open>None\<close>.
\<close>

record TaggedToken =
  "value" :: jsstring
  pos :: "jsstring option"

datatype PosType = verb | noun | adj | adv | all

definition VERB_TAGS :: "jsstring list" where
  "VERB_TAGS = [js ''VB'', js ''VBD'', js ''VBG'', js ''VBN'', js ''VBP'', js ''VBZ'']"

definition NOUN_TAGS :: "jsstring list" where
  "NOUN_TAGS = [js ''NN'', js ''NNS'', js ''NNP'', js ''NNPS'']"

definition ADJ_TAGS :: "jsstring list" where
  "ADJ_TAGS = [js ''JJ'', js ''JJR'', js ''JJS'']"

definition ADV_TAGS :: "jsstring list" where
  "ADV_TAGS = [js ''RB'', js ''RBR'', js ''RBS'']"

text \<open>\<open>s.indexOf(v, from)\<close>; \<open>None\<close> stands for \<open>-1\<close>. The start position is clamped to
  the length of \<open>s\<close>.\<close>

definition indexOf :: "jsstring \<Rightarrow> jsstring \<Rightarrow> nat \<Rightarrow> nat option" where
  "indexOf s v from =
     List.find (\<lambda>k. take (length v) (drop k s) = v) [min from (length s) ..< Suc (length s)]"

text \<open>The replacement of a token by its label (\<open>out\<close> in the source).\<close>

definition posLabel :: "PosType \<Rightarrow> TaggedToken \<Rightarrow> jsstring" where
  "posLabel posType token =
     (case pos token of
        None \<Rightarrow> value token
      | Some posTag \<Rightarrow>
          if posTag = [] then value token
          else if posType = verb \<and> posTag \<in> set VERB_TAGS then js ''VERB''
          else if posType = noun \<and> posTag \<in> set NOUN_TAGS then js ''NOUN''
          else if posType = adj \<and> posTag \<in> set ADJ_TAGS then js ''ADJ''
          else if posType = adv \<and> posTag \<in> set ADV_TAGS then js ''ADV''
          else if posType = all then
            (if posTag \<in> set VERB_TAGS then js ''VERB''
             else if posTag \<in> set NOUN_TAGS then js ''NOUN''
             else if posTag \<in> set ADJ_TAGS then js ''ADJ''
             else if posTag \<in> set ADV_TAGS then js ''ADV''
             else value token)
          else value token)"

type_synonym piece = "nat \<times> nat \<times> nat \<times> nat"

record TagStreamResult =
  stream :: jsstring
  pieces :: "piece list"

record tagState =
  parts :: "jsstring list"
  ts_pieces :: "piece list"
  streamPos :: nat
  rawPos :: nat

text \<open>The \<open>for\<close> loop of \<open>tagStreamWithOffsets\<close> over the tagged tokens; the list argument
  holds \<open>tagged[i], tagged[i + 1], ...\<close>.\<close>

fun tagStream_loop :: "jsstring \<Rightarrow> PosType \<Rightarrow> TaggedToken list \<Rightarrow> tagState \<Rightarrow> tagState" where
  "tagStream_loop text posType [] st = st"
| "tagStream_loop text posType (token # rest) st =
     (case indexOf text (value token) (rawPos st) of
        None \<Rightarrow> tagStream_loop text posType rest (st\<lparr>rawPos := rawPos st + length (value token)\<rparr>)
      | Some tokenStart \<Rightarrow>
          let out = posLabel posType token;
              outLen = length out;
              st1 = st\<lparr>parts := parts st @ [out],
                       ts_pieces := ts_pieces st @
                         [(streamPos st, streamPos st + outLen, tokenStart,
                           tokenStart + length (value token))],
                       streamPos := streamPos st + outLen,
                       rawPos := tokenStart + length (value token)\<rparr>;
              st2 = (case rest of
                       [] \<Rightarrow> st1
                     | nextToken # _ \<Rightarrow>
                         (case indexOf text (value nextToken) (rawPos st1) of
                            Some nextPos \<Rightarrow>
                              if nextPos > rawPos st1 then
                                let whitespace = substring text (rawPos st1) nextPos
                                in st1\<lparr>parts := parts st1 @ [whitespace],
                                        ts_pieces := ts_pieces st1 @
                                          [(streamPos st1, streamPos st1 + length whitespace,
                                            rawPos st1, nextPos)],
                                        streamPos := streamPos st1 + length whitespace,
                                        rawPos := nextPos\<rparr>
                              else
                                st1\<lparr>parts := parts st1 @ [ [32] ],
                                     ts_pieces := ts_pieces st1 @
                                       [(streamPos st1, streamPos st1 + 1, rawPos st1, rawPos st1)],
                                     streamPos := streamPos st1 + 1\<rparr>
                          | None \<Rightarrow>
                              st1\<lparr>parts := parts st1 @ [ [32] ],
                                   ts_pieces := ts_pieces st1 @
                                     [(streamPos st1, streamPos st1 + 1, rawPos st1, rawPos st1)],
                                   streamPos := streamPos st1 + 1\<rparr>))
          in tagStream_loop text posType rest st2)"

definition tagStreamWithOffsets ::
  "(jsstring \<Rightarrow> TaggedToken list) \<Rightarrow> jsstring \<Rightarrow> PosType \<Rightarrow> TagStreamResult" where
  "tagStreamWithOffsets tagSentence text posType =
     (if trim text = [] then \<lparr>stream = [], pieces = []\<rparr>
      else
        let tagged = tagSentence text;
            st = tagStream_loop text posType tagged
                   \<lparr>parts = [], ts_pieces = [], streamPos = 0, rawPos = 0\<rparr>
        in \<lparr>stream = concat (parts st), pieces = ts_pieces st\<rparr>)"

section \<open>contrast-detector.ts\<close>

record ContrastMatch =
  sentence :: jsstring
  cm_pattern_name :: jsstring
  cm_match_text :: jsstring
  sentence_count :: int

subsection \<open>Binary search\<close>

text \<open>In both loops \<open>mid < hi \<le> arr.length\<close>, so \<open>arr[mid]\<close> is always an element.\<close>

function bisectRight_loop :: "nat list \<Rightarrow> nat \<Rightarrow> nat \<Rightarrow> nat \<Rightarrow> nat" where
  "bisectRight_loop arr val l h =
     (if l < h then
        let mid = (l + h) div 2
        in if arr ! mid \<le> val then bisectRight_loop arr val (mid + 1) h
           else bisectRight_loop arr val l mid
      else l)"
  by pat_completeness auto
termination
  by (relation "measure (\<lambda>(arr, val, l, h). h - l)") auto

declare bisectRight_loop.simps [simp del]

definition bisectRight :: "nat list \<Rightarrow> nat \<Rightarrow> nat" where
  "bisectRight arr val = bisectRight_loop arr val 0 (length arr)"

function bisectLeft_loop :: "nat list \<Rightarrow> nat \<Rightarrow> nat \<Rightarrow> nat \<Rightarrow> nat" where
  "bisectLeft_loop arr val l h =
     (if l < h then
        let mid = (l + h) div 2
        in if arr ! mid < val then bisectLeft_loop arr val (mid + 1) h
           else bisectLeft_loop arr val l mid
      else l)"
  by pat_completeness auto
termination
  by (relation "measure (\<lambda>(arr, val, l, h). h - l)") auto

declare bisectLeft_loop.simps [simp del]

definition bisectLeft :: "nat list \<Rightarrow> nat \<Rightarrow> nat" where
  "bisectLeft arr val = bisectLeft_loop arr val 0 (length arr)"

text \<open>\<open>None\<close> is the source's \<open>null\<close>. The source computes \<open>hi\<close> as a possibly negative
  number; the model does so in \<open>int\<close>.\<close>

definition coveredSentenceRange ::
  "(nat \<times> nat) list \<Rightarrow> nat \<Rightarrow> nat \<Rightarrow> (nat \<times> nat) option" where
  "coveredSentenceRange spans start end' =
     (if spans = [] \<or> start \<ge> end' then None
      else
        let starts = map fst spans;
            ends = map snd spans;
            l = bisectRight ends start;
            h = int (bisectLeft starts end') - 1
        in if l \<ge> length spans \<or> h < 0 \<or> int l > h then None
           else Some (l, nat h))"

subsection \<open>Merging\<close>

record CandidateInterval =
  lo :: nat
  hi :: nat
  raw_start :: nat
  raw_end :: nat
  pattern_name :: jsstring
  match_text :: jsstring

text \<open>
  The comparator orders by \<open>lo\<close>, then \<open>hi\<close>, then \<open>raw_start\<close>, and \<open>Array.prototype.sort\<close>
  is stable: a stable sort on the lexicographically ordered key.
\<close>

definition sortKey :: "CandidateInterval \<Rightarrow> nat \<times> nat \<times> nat" where
  "sortKey a = (lo a, hi a, raw_start a)"

fun merge_loop ::
  "CandidateInterval list \<Rightarrow> CandidateInterval \<Rightarrow> CandidateInterval list \<Rightarrow>
   CandidateInterval list" where
  "merge_loop merged cur [] = merged @ [cur]"
| "merge_loop merged cur (it # rest) =
     (if lo it \<le> hi cur then
        merge_loop merged
          (cur\<lparr>hi := max (hi cur) (hi it), raw_end := max (raw_end cur) (raw_end it)\<rparr>) rest
      else merge_loop (merged @ [cur]) it rest)"

definition mergeIntervals :: "CandidateInterval list \<Rightarrow> CandidateInterval list" where
  "mergeIntervals items =
     (if items = [] then []
      else
        let itemsSorted = sort_key sortKey items
        in merge_loop [] (hd itemsSorted) (tl itemsSorted))"

subsection \<open>extractContrastMatches\<close>

text \<open>
  The regular expressions of the two registries (\<open>regexes-stage1\<close>, \<open>regexes-stage2\<close>) are
  parameters. A regular expression is given by its \<open>global\<close> flag and by the function
  from a string to its successive matches, each with its index and its text
  (\<open>match.index\<close>, \<open>match[0]\<close>); without the \<open>g\<close> flag the code uses the first match only.
\<close>

record regex =
  rx_global :: bool
  rx_matchAll :: "jsstring \<Rightarrow> (nat \<times> jsstring) list"

definition regexMatches :: "regex \<Rightarrow> jsstring \<Rightarrow> (nat \<times> jsstring) list" where
  "regexMatches pregex s =
     (if rx_global pregex then rx_matchAll pregex s
      else (case rx_matchAll pregex s of [] \<Rightarrow> [] | m # _ \<Rightarrow> [m]))"

text \<open>What the analysis takes from its platform and from modules that are not modelled
  here: Unicode lower-casing, the two registries and the tagger (\<open>None\<close> when
  \<open>hasPosTagger()\<close> is false).\<close>

record platform =
  toLowerCase :: "jsstring \<Rightarrow> jsstring"
  STAGE1_REGEXES :: "(jsstring \<times> regex) list"
  STAGE2_REGEXES :: "(jsstring \<times> regex) list"
  tagSentence :: "(jsstring \<Rightarrow> TaggedToken list) option"

definition stage1Candidates ::
  "(jsstring \<times> regex) list \<Rightarrow> jsstring \<Rightarrow> (nat \<times> nat) list \<Rightarrow> CandidateInterval list" where
  "stage1Candidates regs tNorm spans =
     concat (map (\<lambda>(pname, pregex).
       concat (map (\<lambda>(index, m0).
         let rs = index; re = index + length m0
         in (case coveredSentenceRange spans rs re of
               None \<Rightarrow> []
             | Some (l, h) \<Rightarrow>
                 [\<lparr>lo = l, hi = h, raw_start = rs, raw_end = re,
                   pattern_name = js ''S1_'' @ pname, match_text = trim m0\<rparr>]))
         (regexMatches pregex tNorm))) regs)"

definition minList :: "nat list \<Rightarrow> nat" where
  "minList xs = fold min (tl xs) (hd xs)"

definition maxList :: "nat list \<Rightarrow> nat" where
  "maxList xs = fold max (tl xs) (hd xs)"

text \<open>\<open>streamToRaw\<close>; when the guard passes, \<open>i \<le> j < pieces.length\<close>, so the slice
  \<open>pieces.slice(i, j + 1)\<close> is not empty.\<close>

definition streamToRaw :: "piece list \<Rightarrow> nat \<Rightarrow> nat \<Rightarrow> (nat \<times> nat) option" where
  "streamToRaw pcs ss se =
     (let streamStarts = map (\<lambda>(a, b, c, d). a) pcs;
          streamEnds = map (\<lambda>(a, b, c, d). b) pcs;
          i = bisectRight streamEnds ss;
          j = int (bisectLeft streamStarts se) - 1
      in if i \<ge> length pcs \<or> j < int i then None
         else
           let sl = take (nat (j + 1) - i) (drop i pcs);
               rawS = minList (map (\<lambda>(a, b, c, d). c) sl);
               rawE = maxList (map (\<lambda>(a, b, c, d). d) sl)
           in Some (rawS, rawE))"

definition stage2Candidates ::
  "(jsstring \<times> regex) list \<Rightarrow> TagStreamResult \<Rightarrow> jsstring \<Rightarrow> (nat \<times> nat) list \<Rightarrow>
   CandidateInterval list" where
  "stage2Candidates regs tagged tNorm spans =
     concat (map (\<lambda>(pname, pregex).
       concat (map (\<lambda>(index, m0).
         (case streamToRaw (pieces tagged) index (index + length m0) of
            None \<Rightarrow> []
          | Some (rs, re) \<Rightarrow>
              (case coveredSentenceRange spans rs re of
                 None \<Rightarrow> []
               | Some (l, h) \<Rightarrow>
                   [\<lparr>lo = l, hi = h, raw_start = rs, raw_end = re,
                     pattern_name = js ''S2_'' @ pname,
                     match_text = trim (substring tNorm rs re)\<rparr>])))
         (regexMatches pregex (stream tagged)))) regs)"

text \<open>The array \<open>candidates\<close> after both stages.\<close>

definition contrastCandidates :: "platform \<Rightarrow> jsstring \<Rightarrow> CandidateInterval list" where
  "contrastCandidates pf text =
     (let tNorm = normalizeText text;
          spans = sentenceSpans tNorm;
          c1 = stage1Candidates (STAGE1_REGEXES pf) tNorm spans;
          c2 = (case tagSentence pf of
                  None \<Rightarrow> []
                | Some tg \<Rightarrow>
                    if length (STAGE2_REGEXES pf) > 0 then
                      stage2Candidates (STAGE2_REGEXES pf)
                        (tagStreamWithOffsets tg tNorm verb) tNorm spans
                    else [])
      in c1 @ c2)"

definition contrastResult ::
  "jsstring \<Rightarrow> (nat \<times> nat) list \<Rightarrow> CandidateInterval \<Rightarrow> ContrastMatch" where
  "contrastResult tNorm spans it =
     (let sLo = lo it;
          sHi = hi it;
          sentenceSpan = int sHi - int sLo + 1;
          blockStart = fst (spans ! sLo);
          blockEnd = snd (spans ! sHi)
      in \<lparr>sentence = trim (substring tNorm blockStart blockEnd),
          cm_pattern_name = pattern_name it,
          cm_match_text = match_text it,
          sentence_count = sentenceSpan\<rparr>)"

text \<open>The array \<open>merged\<close> of \<open>extractContrastMatches\<close>.\<close>

definition contrastMerged :: "platform \<Rightarrow> jsstring \<Rightarrow> CandidateInterval list" where
  "contrastMerged pf text = mergeIntervals (contrastCandidates pf text)"

definition extractContrastMatches :: "platform \<Rightarrow> jsstring \<Rightarrow> ContrastMatch list" where
  "extractContrastMatches pf text =
     (let tNorm = normalizeText text;
          spans = sentenceSpans tNorm;
          merged = contrastMerged pf text
      in map (contrastResult tNorm spans) merged)"

text \<open>What \<open>coveredSentenceRange\<close> guarantees of every candidate: the range is not empty,
  lies within the spans, and its lower end is found from the raw start alone.\<close>

definition okCand :: "(nat \<times> nat) list \<Rightarrow> CandidateInterval \<Rightarrow> bool" where
  "okCand spans c =
     (lo c \<le> hi c \<and> hi c < length spans \<and> lo c = bisectRight (map snd spans) (raw_start c))"

text \<open>A small platform for examples: ASCII lower-casing, one global stage-1 expression
  that reports three fixed matches, no tagger.\<close>

definition examplePlatform :: platform where
  "examplePlatform = \<lparr>toLowerCase = asciiLower,
     STAGE1_REGEXES = [(js ''p'',
        \<lparr>rx_global = True,
         rx_matchAll = (\<lambda>s. [(5, take 3 (drop 5 s)), (0, take 2 s), (4, take 2 (drop 4 s))])\<rparr>)],
     STAGE2_REGEXES = [], tagSentence = None\<rparr>"

section \<open>metrics.ts\<close>

definition STOPWORDS :: "jsstring list" where
  "STOPWORDS = map js
   [''i'', ''me'', ''my'', ''myself'', ''we'', ''our'', ''ours'', ''ourselves'', ''you'',
    ''your'', ''yours'', ''yourself'', ''yourselves'', ''he'', ''him'', ''his'',
    ''himself'', ''she'', ''her'', ''hers'', ''herself'', ''it'', ''its'', ''itself'',
    ''they'', ''them'', ''their'', ''theirs'', ''themselves'', ''what'', ''which'',
    ''who'', ''whom'', ''this'', ''that'', ''these'', ''those'', ''am'', ''is'', ''are'',
    ''was'', ''were'', ''be'', ''been'', ''being'', ''have'', ''has'', ''had'', ''having'',
    ''do'', ''does'', ''did'', ''doing'', ''a'', ''an'', ''the'', ''and'', ''but'', ''if'',
    ''or'', ''because'', ''as'', ''until'', ''while'', ''of'', ''at'', ''by'', ''for'',
    ''with'', ''about'', ''against'', ''between'', ''into'', ''through'', ''during'',
    ''before'', ''after'', ''above'', ''below'', ''to'', ''from'', ''up'', ''down'',
    ''in'', ''out'', ''on'', ''off'', ''over'', ''under'', ''again'', ''further'',
    ''then'', ''once'', ''here'', ''there'', ''when'', ''where'', ''why'', ''how'',
    ''all'', ''any'', ''both'', ''each'', ''few'', ''more'', ''most'', ''other'', ''some'',
    ''such'', ''no'', ''nor'', ''not'', ''only'', ''own'', ''same'', ''so'', ''than'',
    ''too'', ''very'', ''s'', ''t'', ''can'', ''will'', ''just'', ''don'', ''should'',
    ''now'']"

definition KNOWN_CONTRACTIONS_S :: "jsstring list" where
  "KNOWN_CONTRACTIONS_S = map js
   [''it's'', ''that's'', ''what's'', ''who's'', ''he's'', ''she's'',
    ''there's'', ''here's'', ''where's'', ''when's'', ''why's'', ''how's'', ''let's'']"

text \<open>The module-level state that the analysis reads (\<open>slopBigrams\<close> is loaded but never
  read by the functions below and is left out).\<close>

record stores =
  wordfreq :: "WordfreqEn option"
  humanBigramFreq :: "(jsstring, real) jsmap"
  humanTrigramFreq :: "(jsstring, real) jsmap"
  slopWords :: "jsstring set"
  slopTrigrams :: "jsstring set"

definition lookupFrequency :: "(jsstring \<Rightarrow> jsstring) \<Rightarrow> stores \<Rightarrow> jsstring \<Rightarrow> real option" where
  "lookupFrequency lc st word =
     (case wordfreq st of
        None \<Rightarrow> None
      | Some wfq \<Rightarrow>
          let freq = frequency lc wfq (JString word)
          in if freq > 0 then Some freq else None)"

definition getOrZero :: "('k, nat) jsmap \<Rightarrow> 'k \<Rightarrow> nat" where
  "getOrZero m k = (case map_get m k of None \<Rightarrow> 0 | Some c \<Rightarrow> c)"

definition endsWithApostropheS :: "jsstring \<Rightarrow> bool" where
  "endsWithApostropheS word = (length word \<ge> 2 \<and> drop (length word - 2) word = [39, 115])"

definition mergePossessives :: "(jsstring, nat) jsmap \<Rightarrow> (jsstring, nat) jsmap" where
  "mergePossessives wordCounts =
     fold (\<lambda>(word, count) merged.
        let baseWord = take (length word - 2) word
        in if endsWithApostropheS word \<and> word \<notin> set KNOWN_CONTRACTIONS_S \<and> baseWord \<noteq> []
           then map_set baseWord (getOrZero merged baseWord + count) merged
           else map_set word (getOrZero merged word + count) merged)
       wordCounts []"

subsection \<open>loadHumanProfile\<close>








subsection \<open>The composite score\<close>

record range =
  rmin :: real
  rmax :: real

definition slop_words_range :: range where
  "slop_words_range = \<lparr> rmin = 2.1214882577844882, rmax = 43.924784489934034 \<rparr>"

definition slop_trigrams_range :: range where
  "slop_trigrams_range = \<lparr> rmin = - 0.027052241145113065, rmax = 1.2293612202273094 \<rparr>"

definition contrast_range :: range where
  "contrast_range = \<lparr> rmin = - 0.0323480255696472, rmax = 0.8881555162544392 \<rparr>"

definition normalizeValue :: "real \<Rightarrow> range \<Rightarrow> real" where
  "normalizeValue v r =
     (let normalized = (v - rmin r) / (rmax r - rmin r)
      in max 0 (min 1 normalized))"

definition computeSlopScore :: "real \<Rightarrow> real \<Rightarrow> real \<Rightarrow> real" where
  "computeSlopScore wordScore trigramScore contrastRate =
     (let normWords = normalizeValue wordScore slop_words_range;
          normTrigrams = normalizeValue trigramScore slop_trigrams_range;
          normContrast = normalizeValue contrastRate contrast_range
      in (normWords * 0.6 + normContrast * 0.25 + normTrigrams * 0.15) * 100)"

subsection \<open>computeSlopIndex\<close>

text \<open>\<open>None\<close> in the two hit fields is the source's \<open>null\<close>.\<close>

record SlopIndexResult =
  wordScore :: real
  trigramScore :: real
  wordHits :: "(jsstring \<times> nat) list option"
  trigramHits :: "(jsstring \<times> nat) list option"

text \<open>One step of either counting loop: the hit counter and the hit map (when there is
  one) for an item found in the lexicon.\<close>

definition countHit ::
  "jsstring set \<Rightarrow> jsstring \<Rightarrow> nat \<times> (jsstring, nat) jsmap option \<Rightarrow>
   nat \<times> (jsstring, nat) jsmap option" where
  "countHit lexicon t acc =
     (case acc of
        (hitCount, hitMap) \<Rightarrow>
          if t \<in> lexicon then
            (hitCount + 1,
             (case hitMap of
                None \<Rightarrow> None
              | Some m \<Rightarrow> Some (map_set t (getOrZero m t + 1) m)))
          else (hitCount, hitMap))"

text \<open>\<open>entries.sort((a, b) => b[1] - a[1])\<close>: a stable sort, larger counts first.\<close>

definition sortHits :: "(jsstring \<times> nat) list \<Rightarrow> (jsstring \<times> nat) list" where
  "sortHits entries = sort_key (\<lambda>(k, c). - int c) entries"

definition computeSlopIndex :: "stores \<Rightarrow> jsstring list \<Rightarrow> bool \<Rightarrow> SlopIndexResult" where
  "computeSlopIndex st tokens trackHits =
     (let n = length tokens
      in if n = 0 then \<lparr>wordScore = 0, trigramScore = 0, wordHits = None, trigramHits = None\<rparr>
         else
           let wordInit = (0, if trackHits then Some [] else None);
               triInit = (0, if trackHits then Some [] else None);
               wordAcc = (if slopWords st \<noteq> {}
                          then fold (countHit (slopWords st)) tokens wordInit
                          else wordInit);
               triAcc = (if slopTrigrams st \<noteq> {} \<and> n \<ge> 3
                         then fold (\<lambda>i. countHit (slopTrigrams st)
                                     (tokens ! i @ [32] @ tokens ! (i + 1) @ [32] @ tokens ! (i + 2)))
                                [0 ..< n - 2] triInit
                         else triInit);
               wScore = (real (fst wordAcc) / real n) * 1000;
               tScore = (real (fst triAcc) / real n) * 1000
           in if trackHits then
                \<lparr>wordScore = wScore, trigramScore = tScore,
                 wordHits = Some (case snd wordAcc of Some m \<Rightarrow> sortHits m | None \<Rightarrow> []),
                 trigramHits = Some (case snd triAcc of Some m \<Rightarrow> sortHits m | None \<Rightarrow> [])\<rparr>
              else
                \<lparr>wordScore = wScore, trigramScore = tScore,
                 wordHits = None, trigramHits = None\<rparr>)"

subsection \<open>Repetition and lexical diversity\<close>

definition contentTokens :: "jsstring list \<Rightarrow> jsstring list" where
  "contentTokens tokens = filter (\<lambda>t. isAlphaToken t \<and> t \<notin> set STOPWORDS) tokens"

definition makeNgrams :: "jsstring list \<Rightarrow> nat \<Rightarrow> jsstring list" where
  "makeNgrams tokens n = getNgrams tokens n"

text \<open>\<open>minHuman\<close> starts at \<open>Infinity\<close> (\<open>None\<close>) and falls back to \<open>1e-12\<close>. The rows are
  sorted by a stable sort, larger ratios first.\<close>

definition minPositive :: "real list \<Rightarrow> real option" where
  "minPositive vs =
     fold (\<lambda>v minHuman.
        if v > 0 \<and> (case minHuman of None \<Rightarrow> True | Some m \<Rightarrow> v < m) then Some v else minHuman)
       vs None"

definition rankOveruseWithCounts ::
  "jsstring list \<Rightarrow> (jsstring, real) jsmap \<Rightarrow> nat \<Rightarrow> (jsstring \<times> real \<times> nat) list" where
  "rankOveruseWithCounts ngrams humanFreqMap topK =
     (if length ngrams = 0 then []
      else
        let counts = countItems ngrams;
            total = (let t = sum_list (map snd counts) in if t = 0 then 1 else t);
            minHuman = (case minPositive (map snd humanFreqMap) of
                          None \<Rightarrow> 1 / 10 ^ 12
                        | Some m \<Rightarrow> m);
            rows = map (\<lambda>(ng, cnt).
                     let model_f = real cnt / real total;
                         human_f = (case map_get humanFreqMap ng of Some v \<Rightarrow> v | None \<Rightarrow> minHuman);
                         ratio = model_f / (human_f + 1 / 10 ^ 12)
                     in (ng, ratio, cnt)) counts
        in take topK (sort_key (\<lambda>(ng, ratio, cnt). - ratio) rows))"

definition uniqueCount :: "jsstring list \<Rightarrow> nat" where
  "uniqueCount tokens = length (remdups tokens)"

definition computeMATTR :: "jsstring list \<Rightarrow> nat \<Rightarrow> real" where
  "computeMATTR tokens windowSize =
     (let totalWords = length tokens
      in if totalWords = 0 then 0
         else
           let simpleTTR = real (uniqueCount tokens) / real totalWords
           in if totalWords \<ge> windowSize then
                let windows = map (\<lambda>i. take windowSize (drop i tokens))
                                [0 ..< Suc (totalWords - windowSize)];
                    sumTTR = sum_list (map (\<lambda>w. real (uniqueCount w) / real windowSize) windows);
                    windowCount = length windows
                in sumTTR / real windowCount
              else simpleTTR)"

record LexicalDiversity =
  mattr_500 :: real
  type_token_ratio :: real
  unique_words :: nat
  ld_total_words :: nat

definition computeLexicalDiversity :: "jsstring list \<Rightarrow> LexicalDiversity" where
  "computeLexicalDiversity tokens =
     (let totalWords = length tokens
      in if totalWords = 0 then
           \<lparr>mattr_500 = 0, type_token_ratio = 0, unique_words = 0, ld_total_words = 0\<rparr>
         else
           \<lparr>mattr_500 = computeMATTR tokens 500,
            type_token_ratio = real (uniqueCount tokens) / real totalWords,
            unique_words = uniqueCount tokens,
            ld_total_words = totalWords\<rparr>)"

subsection \<open>Readability and structure\<close>

text \<open>
  \<open>text.split(/[C]+/)\<close> for a character class \<open>C\<close>: the pieces between the maximal runs of
  code units of the class, empty pieces included.
\<close>

function splitRuns :: "(nat \<Rightarrow> bool) \<Rightarrow> jsstring \<Rightarrow> jsstring list" where
  "splitRuns P s =
     (case dropWhile (\<lambda>c. \<not> P c) s of
        [] \<Rightarrow> [s]
      | c # cs \<Rightarrow> takeWhile (\<lambda>c. \<not> P c) s # splitRuns P (dropWhile P cs))"
  by pat_completeness auto
termination
proof (relation "measure (\<lambda>(P, s). length s)", goal_cases)
  case 1
  show ?case by simp
next
  case (2 P s c cs)
  have "length (dropWhile P cs) \<le> length cs"
    by (rule length_dropWhile_le)
  moreover have "length (c # cs) \<le> length s"
    using length_dropWhile_le [of "\<lambda>c. \<not> P c" s] 2 by simp
  ultimately show ?case by simp
qed

declare splitRuns.simps [simp del]

definition vl_sentences :: "jsstring \<Rightarrow> jsstring list" where
  "vl_sentences text = filter (\<lambda>s. length (trim s) > 0) (splitRuns isTerm text)"

text \<open>\<open>text.match(/\b\w+\b/g) || []\<close>: the maximal runs of word characters.\<close>

definition isWordChar :: "nat \<Rightarrow> bool" where
  "isWordChar c = (isAlnum c \<or> c = 95)"

definition vl_words :: "jsstring \<Rightarrow> jsstring list" where
  "vl_words text = runs isWordChar text"

definition isVowelY :: "nat \<Rightarrow> bool" where
  "isVowelY c = (c \<in> {97, 101, 105, 111, 117, 121})"

definition isLaeiouy :: "nat \<Rightarrow> bool" where
  "isLaeiouy c = (c = 108 \<or> isVowelY c)"

text \<open>
  \<open>word.replace(/(?:[^laeiouy]es|ed|[^laeiouy]e)$/, '')\<close>: a match must end at the end of
  the word, so it is the last three code units (first alternative, tried at the earlier
  position) or the last two (second and third alternative).
\<close>

definition stripSuffix :: "jsstring \<Rightarrow> jsstring" where
  "stripSuffix w =
     (let n = length w
      in if n \<ge> 3 \<and> \<not> isLaeiouy (w ! (n - 3)) \<and> w ! (n - 2) = 101 \<and> w ! (n - 1) = 115
         then take (n - 3) w
         else if n \<ge> 2 \<and> w ! (n - 2) = 101 \<and> w ! (n - 1) = 100 then take (n - 2) w
         else if n \<ge> 2 \<and> \<not> isLaeiouy (w ! (n - 2)) \<and> w ! (n - 1) = 101 then take (n - 2) w
         else w)"

text \<open>The number of matches of \<open>/[aeiouy]{1,2}/g\<close>.\<close>

fun countVowelGroups :: "jsstring \<Rightarrow> nat" where
  "countVowelGroups [] = 0"
| "countVowelGroups [c] = (if isVowelY c then 1 else 0)"
| "countVowelGroups (c # d # r) =
     (if isVowelY c then
        (if isVowelY d then 1 + countVowelGroups r else 1 + countVowelGroups (d # r))
      else countVowelGroups (d # r))"

text \<open>The words are runs of ASCII letters, digits and underscores, on which
  \<open>toLowerCase\<close> is \<open>asciiLower\<close>.\<close>

definition countSyllables :: "jsstring \<Rightarrow> nat" where
  "countSyllables word0 =
     (let word1 = asciiLower word0
      in if length word1 \<le> 3 then 1
         else
           let word2 = stripSuffix word1;
               word3 = (case word2 of c # r \<Rightarrow> if c = 121 then r else word2 | [] \<Rightarrow> word2);
               syllables = countVowelGroups word3
           in if syllables = 0 then 1 else syllables)"

definition computeVocabLevel :: "jsstring \<Rightarrow> real" where
  "computeVocabLevel text =
     (let sentences = vl_sentences text;
          words = vl_words text
      in if length sentences = 0 \<or> length words = 0 then 0
         else
           let totalSyllables = fold (\<lambda>word sum. sum + countSyllables word) words 0;
               avgSyllablesPerWord = real totalSyllables / real (length words);
               avgWordsPerSentence = real (length words) / real (length sentences);
               gradeLevel = 0.39 * avgWordsPerSentence + 11.8 * avgSyllablesPerWord - 15.59
           in max 0 gradeLevel)"

definition computeAverageSentenceLength :: "jsstring \<Rightarrow> real" where
  "computeAverageSentenceLength text =
     (let sentences = vl_sentences text;
          words = vl_words text
      in if length sentences = 0 then 0
         else real (length words) / real (length sentences))"

text \<open>
  \<open>text.split(/\n\s*\n/)\<close>. A match starts at a line feed; \<open>\s*\<close> takes the whole run of
  white space after it and gives code units back until the last one kept is followed by
  a line feed, so the match ends with the last line feed of that run. Without a line feed
  in the run there is no match at this position. \<open>acc\<close> holds the current piece,
  reversed.
\<close>

definition lastLF :: "jsstring \<Rightarrow> nat" where
  "lastLF ws = length ws - length (takeWhile (\<lambda>c. c \<noteq> 10) (rev ws))"

function splitPara_loop :: "jsstring \<Rightarrow> jsstring \<Rightarrow> jsstring list" where
  "splitPara_loop acc s =
     (case s of
        [] \<Rightarrow> [rev acc]
      | c # r \<Rightarrow>
          if c = 10 \<and> 10 \<in> set (takeWhile isJsSpace r)
          then rev acc # splitPara_loop [] (drop (lastLF (takeWhile isJsSpace r)) r)
          else splitPara_loop (c # acc) r)"
  by pat_completeness auto
termination
  by (relation "measure (\<lambda>(acc, s). length s)") auto

declare splitPara_loop.simps [simp del]

definition computeAverageParagraphLength :: "jsstring \<Rightarrow> real" where
  "computeAverageParagraphLength text =
     (let paragraphs = filter (\<lambda>p. length (trim p) > 0) (splitPara_loop [] text);
          words = vl_words text
      in if length paragraphs = 0 then 0
         else real (length words) / real (length paragraphs))"

definition computeDialogueFrequency :: "jsstring \<Rightarrow> real" where
  "computeDialogueFrequency text =
     (let quotes = length (filter (\<lambda>c. c \<in> {34, 8220, 8221}) text);
          chars = length text
      in if chars = 0 then 0
         else (real quotes / 2 / real chars) * 1000)"

subsection \<open>analyzeText\<close>

text \<open>
  The optional flags of \<open>AnalyzeOptions\<close> are booleans (an absent flag is false); the
  optional fields of the result are \<open>None\<close> when absent. Two fields of the result are
  renamed, because \<open>file\<close> and \<open>total_words\<close> already name fields of other records:
  \<open>r_file\<close> is \<open>file\<close> and, in \<open>LexicalDiversity\<close>, \<open>ld_total_words\<close> is \<open>total_words\<close>.
\<close>

record AnalyzeOptions =
  "file" :: jsstring
  includeWordHits :: bool
  includeTrigramHits :: bool
  includeOverRepresented :: bool
  includeContrastMatches :: bool

record Metrics =
  slop_words_per_1k :: real
  slop_trigrams_per_1k :: real
  ngram_repetition_score :: real
  not_x_but_y_per_1k_chars :: real
  lexical_diversity :: LexicalDiversity
  vocab_level :: real
  avg_sentence_length :: real
  avg_paragraph_length :: real
  dialogue_frequency :: real

text \<open>An entry of \<open>top_over_represented\<close>: the word or phrase, the ratio and the count.\<close>

type_synonym overRepEntry = "jsstring \<times> real \<times> nat"

record OverRepresented =
  or_words :: "overRepEntry list"
  or_bigrams :: "overRepEntry list"
  or_trigrams :: "overRepEntry list"

record AnalyzeResult =
  r_file :: jsstring
  total_chars :: nat
  total_words :: nat
  slop_score :: real
  metrics :: Metrics
  slop_word_hits :: "(jsstring \<times> nat) list option"
  slop_trigram_hits :: "(jsstring \<times> nat) list option"
  top_over_represented :: "OverRepresented option"
  contrast_matches :: "ContrastMatch list option"

definition zeroMetrics :: Metrics where
  "zeroMetrics =
     \<lparr>slop_words_per_1k = 0, slop_trigrams_per_1k = 0, ngram_repetition_score = 0,
      not_x_but_y_per_1k_chars = 0,
      lexical_diversity =
        \<lparr>mattr_500 = 0, type_token_ratio = 0, unique_words = 0, ld_total_words = 0\<rparr>,
      vocab_level = 0, avg_sentence_length = 0, avg_paragraph_length = 0,
      dialogue_frequency = 0\<rparr>"

text \<open>The block under \<open>options.includeOverRepresented\<close>.\<close>

definition overRepresented ::
  "platform \<Rightarrow> stores \<Rightarrow> jsstring list \<Rightarrow> (jsstring \<times> real \<times> nat) list \<Rightarrow>
   (jsstring \<times> real \<times> nat) list \<Rightarrow> OverRepresented" where
  "overRepresented pf st toksContent topBCounts topTCounts =
     (let wordCounts = mergePossessives (countItems toksContent);
          totalWords = sum_list (map snd wordCounts);
          wordOverrep = concat (map (\<lambda>(w, cnt).
              (case lookupFrequency (toLowerCase pf) st w of
                 None \<Rightarrow> []
               | Some baselineFreq \<Rightarrow>
                   let modelFreq = real cnt / real totalWords;
                       ratio = modelFreq / baselineFreq
                   in if ratio > 1.5 \<and> cnt \<ge> 2 then [(w, ratio, cnt)] else []))
            wordCounts);
          sortedOverrep = sort_key (\<lambda>(w, ratio, cnt). - ratio) wordOverrep
      in \<lparr>or_words = take 100 sortedOverrep,
          or_bigrams = take 100 topBCounts,
          or_trigrams = take 100 topTCounts\<rparr>)"

definition analyzeText :: "platform \<Rightarrow> stores \<Rightarrow> jsstring \<Rightarrow> AnalyzeOptions \<Rightarrow> AnalyzeResult" where
  "analyzeText pf st text options =
     (let chars = length text;
          toks0 = wordsOnlyLower (toLowerCase pf) text;
          toks = alphaTokens toks0;
          nWords = length toks
      in if nWords = 0 then
           \<lparr>r_file = file options, total_chars = chars, total_words = 0, slop_score = 0,
            metrics = zeroMetrics,
            slop_word_hits = None, slop_trigram_hits = None, top_over_represented = None,
            contrast_matches = None\<rparr>
         else
           let trackHits = (includeWordHits options \<or> includeTrigramHits options);
               slopResult = computeSlopIndex st toks trackHits;
               toksContent = contentTokens toks;
               bigs = makeNgrams toksContent 2;
               tris = makeNgrams toksContent 3;
               topBCounts = rankOveruseWithCounts bigs (humanBigramFreq st) 40;
               topTCounts = rankOveruseWithCounts tris (humanTrigramFreq st) 40;
               top_bigram_count = sum_list (map (\<lambda>(ng, ratio, cnt). cnt) topBCounts);
               top_trigram_count = sum_list (map (\<lambda>(ng, ratio, cnt). cnt) topTCounts);
               content_word_count = length toksContent;
               repetition_score =
                 (if content_word_count > 0
                  then (real (top_bigram_count + top_trigram_count) / real content_word_count) * 1000
                  else 0);
               contrastMatches = extractContrastMatches pf text;
               contrastRate =
                 (if chars > 0 then (real (length contrastMatches) / real chars) * 1000 else 0);
               lexicalDiversity = computeLexicalDiversity toks;
               vocabLevel = computeVocabLevel text;
               avgSentenceLength = computeAverageSentenceLength text;
               avgParagraphLength = computeAverageParagraphLength text;
               dialogueFrequency = computeDialogueFrequency text;
               slopScore = computeSlopScore (wordScore slopResult) (trigramScore slopResult)
                             contrastRate
           in \<lparr>r_file = file options, total_chars = chars, total_words = nWords,
               slop_score = slopScore,
               metrics =
                 \<lparr>slop_words_per_1k = wordScore slopResult,
                  slop_trigrams_per_1k = trigramScore slopResult,
                  ngram_repetition_score = repetition_score,
                  not_x_but_y_per_1k_chars = contrastRate,
                  lexical_diversity = lexicalDiversity,
                  vocab_level = vocabLevel,
                  avg_sentence_length = avgSentenceLength,
                  avg_paragraph_length = avgParagraphLength,
                  dialogue_frequency = dialogueFrequency\<rparr>,
               slop_word_hits =
                 (if includeWordHits options
                  then Some (case wordHits slopResult of Some h \<Rightarrow> h | None \<Rightarrow> [])
                  else None),
               slop_trigram_hits =
                 (if includeTrigramHits options
                  then Some (case trigramHits slopResult of Some h \<Rightarrow> h | None \<Rightarrow> [])
                  else None),
               top_over_represented =
                 (if includeOverRepresented options
                  then Some (overRepresented pf st toksContent topBCounts topTCounts)
                  else None),
               contrast_matches =
                 (if includeContrastMatches options then Some (take 100 contrastMatches)
                  else None)\<rparr>)"

section \<open>Notions used in the properties, and examples\<close>

text \<open>Whether a bin is a list that contains the word.\<close>

definition bucketHas :: "jsstring list option \<Rightarrow> jsstring \<Rightarrow> bool" where
  "bucketHas words w = (case words of None \<Rightarrow> False | Some ws \<Rightarrow> w \<in> set ws)"

text \<open>The header of a well-formed file.\<close>

definition exampleHeader :: MsgpackHeader where
  "exampleHeader = \<lparr>format = js ''cB'', version = 1\<rparr>"







text \<open>A table whose configured default is 1.\<close>

definition exampleWordfreq :: WordfreqEn where
  "exampleWordfreq = \<lparr>wf_map = [(js ''the'', 7), (js ''cat'', 5)], minZipf = 1\<rparr>"

text \<open>Stores for examples, with a one-word and a one-trigram lexicon.\<close>

definition exampleStores :: stores where
  "exampleStores =
     \<lparr>wordfreq = Some exampleWordfreq, humanBigramFreq = [], humanTrigramFreq = [],
      slopWords = {js ''delve''}, slopTrigrams = {js ''took deep breath''}\<rparr>"

text \<open>Options for examples: only the contrast matches are requested.\<close>

definition exampleOptions :: AnalyzeOptions where
  "exampleOptions =
     \<lparr>file = js ''empty.txt'', includeWordHits = False, includeTrigramHits = False,
      includeOverRepresented = False, includeContrastMatches = True\<rparr>"

section \<open>Properties\<close>

lemma normalizeValue_bounds: "0 \<le> normalizeValue v r \<and> normalizeValue v r \<le> 1"
  by (simp add: normalizeValue_def Let_def)

lemma normalizeValue_mono:
  assumes "rmin r < rmax r" and "v \<le> v'"
  shows "normalizeValue v r \<le> normalizeValue v' r"
proof -
  have "(v - rmin r) / (rmax r - rmin r) \<le> (v' - rmin r) / (rmax r - rmin r)"
    using assms by (simp add: divide_right_mono)
  then show ?thesis
    by (simp add: normalizeValue_def Let_def min_def max_def)
qed

lemma ranges_proper:
  "rmin slop_words_range < rmax slop_words_range"
  "rmin slop_trigrams_range < rmax slop_trigrams_range"
  "rmin contrast_range < rmax contrast_range"
  by (simp_all add: slop_words_range_def slop_trigrams_range_def contrast_range_def)

text \<open>
  C1. Over real inputs, \<open>computeSlopScore\<close> lies in \<open>[0, 100]\<close> and is monotonically
  non-decreasing in each of its three arguments.
\<close>

theorem computeSlopScore_range_mono:
  "0 \<le> computeSlopScore w t c \<and> computeSlopScore w t c \<le> 100 \<and>
   (w \<le> w' \<longrightarrow> computeSlopScore w t c \<le> computeSlopScore w' t c) \<and>
   (t \<le> t' \<longrightarrow> computeSlopScore w t c \<le> computeSlopScore w t' c) \<and>
   (c \<le> c' \<longrightarrow> computeSlopScore w t c \<le> computeSlopScore w t c')"
proof -
  define a where "a = normalizeValue w slop_words_range"
  define b where "b = normalizeValue t slop_trigrams_range"
  define d where "d = normalizeValue c contrast_range"
  have ab: "0 \<le> a" "a \<le> 1" "0 \<le> b" "b \<le> 1" "0 \<le> d" "d \<le> 1"
    using normalizeValue_bounds by (simp_all add: a_def b_def d_def)
  have eq: "computeSlopScore w t c = (a * 0.6 + d * 0.25 + b * 0.15) * 100"
    by (simp add: computeSlopScore_def Let_def a_def b_def d_def)
  have r0: "0 \<le> computeSlopScore w t c" using ab unfolding eq by simp
  have r1: "computeSlopScore w t c \<le> 100" using ab unfolding eq by simp
  have m1: "computeSlopScore w t c \<le> computeSlopScore w' t c" if "w \<le> w'"
    using normalizeValue_mono [OF ranges_proper(1) that]
    by (simp add: computeSlopScore_def Let_def)
  have m2: "computeSlopScore w t c \<le> computeSlopScore w t' c" if "t \<le> t'"
    using normalizeValue_mono [OF ranges_proper(2) that]
    by (simp add: computeSlopScore_def Let_def)
  have m3: "computeSlopScore w t c \<le> computeSlopScore w t c'" if "c \<le> c'"
    using normalizeValue_mono [OF ranges_proper(3) that]
    by (simp add: computeSlopScore_def Let_def)
  show ?thesis using r0 r1 m1 m2 m3 by blast
qed

theorem computeSlopScore_range_mono_witness:
  "0 \<le> computeSlopScore 10 0.5 0.2 \<and> computeSlopScore 10 0.5 0.2 \<le> 100 \<and>
   computeSlopScore 10 0.5 0.2 \<le> computeSlopScore 20 0.5 0.2 \<and>
   computeSlopScore 10 0.5 0.2 \<le> computeSlopScore 10 0.7 0.2 \<and>
   computeSlopScore 10 0.5 0.2 \<le> computeSlopScore 10 0.5 0.4"
  using computeSlopScore_range_mono [of 10 "0.5" "0.2" 20 "0.7" "0.4"] by simp


subsection \<open>Sentence spans\<close>

lemma chain_append: "chain a xs b \<Longrightarrow> chain b ys c \<Longrightarrow> chain a (xs @ ys) c"
  by (induction xs arbitrary: a) auto

lemma length_takeWhile_full:
  "length (takeWhile P xs) = length xs \<longleftrightarrow> (\<forall>x \<in> set xs. P x)"
proof
  assume "length (takeWhile P xs) = length xs"
  then have "takeWhile P xs = xs"
    using takeWhile_eq_take [of P xs] by simp
  then show "\<forall>x \<in> set xs. P x" by simp
next
  assume "\<forall>x \<in> set xs. P x"
  then show "length (takeWhile P xs) = length xs" by (induction xs) simp_all
qed

lemma sentSplit_at_None_iff:
  "sentSplit_at text i = None \<longleftrightarrow> (\<forall>c \<in> set (drop i text). \<not> isTerm c)"
proof (cases "i < length text")
  case False
  then show ?thesis by (simp add: sentSplit_at_def Let_def)
next
  case True
  have le: "length (takeWhile (\<lambda>c. \<not> isTerm c) (drop i text)) \<le> length text - i"
    using length_takeWhile_le [of "\<lambda>c. \<not> isTerm c" "drop i text"] by simp
  have "sentSplit_at text i = None \<longleftrightarrow>
        length (takeWhile (\<lambda>c. \<not> isTerm c) (drop i text)) = length (drop i text)"
    using True le by (auto simp: sentSplit_at_def Let_def)
  then show ?thesis by (simp only: length_takeWhile_full)
qed

lemma sentSplit_at_None_later:
  assumes "sentSplit_at text i = None"
  shows "sentSplit_at text (i + k) = None"
proof -
  have "set (drop (i + k) text) \<subseteq> set (drop i text)"
    using set_drop_subset [of k "drop i text"] by (simp add: add.commute)
  with assms show ?thesis unfolding sentSplit_at_None_iff by blast
qed

lemma sentSplit_exec_None:
  "sentSplit_at text i = None \<Longrightarrow> sentSplit_exec text i = None"
proof (induction "text" i rule: sentSplit_exec.induct)
  case (1 "text" i)
  note eq = sentSplit_exec.simps [of "text" i]
  show ?case
  proof (cases "length text < i")
    case True
    then show ?thesis using eq by simp
  next
    case False
    have "sentSplit_at text (i + 1) = None"
      using sentSplit_at_None_later [OF "1.prems"] .
    from "1.IH" [OF False "1.prems" this] show ?thesis
      using eq False "1.prems" by simp
  qed
qed

lemma sentSplit_exec_index:
  assumes "sentSplit_exec text i = Some (idx, e)"
  shows "idx = i"
proof (cases "sentSplit_at text i")
  case None
  from sentSplit_exec_None [OF this] assms show ?thesis by simp
next
  case (Some e')
  have "\<not> length text < i"
    using assms sentSplit_exec.simps [of "text" i] by (cases "length text < i") simp_all
  with assms Some sentSplit_exec.simps [of "text" i] show ?thesis by simp
qed

lemma sentenceSpans_loop_chain:
  "chain 0 spans lastIndex \<Longrightarrow> lastEnd = lastIndex \<Longrightarrow> lastIndex \<le> length text \<Longrightarrow>
   sentenceSpans_loop text lastIndex spans lastEnd = (sp, le) \<Longrightarrow>
   chain 0 sp le \<and> le \<le> length text"
proof (induction "text" lastIndex spans lastEnd rule: sentenceSpans_loop.induct)
  case (1 "text" lastIndex spans lastEnd)
  note eq = sentenceSpans_loop.simps [of "text" lastIndex spans lastEnd]
  show ?case
  proof (cases "sentSplit_exec text lastIndex")
    case None
    with "1.prems" eq show ?thesis by simp
  next
    case (Some p)
    obtain idx e where p: "p = (idx, e)" by (cases p)
    from Some p have ex: "sentSplit_exec text lastIndex = Some (idx, e)" by simp
    from sentSplit_exec_index [OF ex] have idx: "idx = lastIndex" .
    from sentSplit_exec_bounds [OF ex] have b: "idx < e" "e \<le> length text" by simp_all
    have "chain lastIndex [(idx, e)] e" using idx b by simp
    from chain_append [OF "1.prems"(1) this]
    have c: "chain 0 (spans @ [(idx, e)]) e" .
    have r: "sentenceSpans_loop text e (spans @ [(idx, e)]) e = (sp, le)"
      using "1.prems"(4) ex eq by simp
    from "1.IH" [OF Some p [symmetric] c refl b(2) r] show ?thesis .
  qed
qed

lemma sentenceSpans_chain: "chain 0 (sentenceSpans text) (length text)"
proof -
  obtain sp le where l: "sentenceSpans_loop text 0 [] 0 = (sp, le)"
    by (cases "sentenceSpans_loop text 0 [] 0")
  have c0: "chain 0 [] 0" by simp
  have "chain 0 sp le \<and> le \<le> length text"
    by (rule sentenceSpans_loop_chain [OF c0 refl _ l]) simp
  then have c: "chain 0 sp le" "le \<le> length text" by simp_all
  show ?thesis
  proof (cases "le < length text")
    case True
    then have "chain le [(le, length text)] (length text)" by simp
    from chain_append [OF c(1) this] True l show ?thesis
      by (simp add: sentenceSpans_def)
  next
    case False
    with c l show ?thesis by (simp add: sentenceSpans_def)
  qed
qed

text \<open>
  C3. The spans returned by \<open>sentenceSpans\<close> tile \<open>[0, len(text))\<close>: the first starts at
  0, each starts at the end of the one before it, none is empty (so no two overlap) and
  the last ends at \<open>len(text)\<close>; trailing text without a terminator is the last span, and
  the empty text has no span.
\<close>

theorem sentenceSpans_tiles:
  "chain 0 (sentenceSpans text) (length text)"
  by (rule sentenceSpans_chain)

theorem sentenceSpans_tiles_witness:
  "sentenceSpans (js ''Hi. Yo'') = [(0, 3), (3, 6)] \<and> chain 0 [(0, 3), (3, 6)] 6"
proof -
  have e: "sentenceSpans (js ''Hi. Yo'') = [(0, 3), (3, 6)]" by code_simp
  have l: "length (js ''Hi. Yo'') = 6" by (simp add: js_def)
  from sentenceSpans_tiles [of "js ''Hi. Yo''"] show ?thesis unfolding e l by simp
qed

subsection \<open>Contrast matches\<close>

lemma bisectRight_loop_spec:
  "sorted arr \<Longrightarrow> l \<le> h \<Longrightarrow> h \<le> length arr \<Longrightarrow>
   (\<forall>i<l. arr ! i \<le> v) \<Longrightarrow> (\<forall>i. h \<le> i \<and> i < length arr \<longrightarrow> v < arr ! i) \<Longrightarrow>
   l \<le> bisectRight_loop arr v l h \<and> bisectRight_loop arr v l h \<le> h \<and>
   (\<forall>i < bisectRight_loop arr v l h. arr ! i \<le> v) \<and>
   (\<forall>i. bisectRight_loop arr v l h \<le> i \<and> i < length arr \<longrightarrow> v < arr ! i)"
proof (induction arr v l h rule: bisectRight_loop.induct)
  case (1 arr v l h)
  note eq = bisectRight_loop.simps [of arr v l h]
  show ?case
  proof (cases "l < h")
    case False
    with "1.prems" have "l = h" by simp
    with eq "1.prems" show ?thesis by simp
  next
    case True
    define mid where "mid = (l + h) div 2"
    have mid: "l \<le> mid" "mid < h" using True by (simp_all add: mid_def)
    show ?thesis
    proof (cases "arr ! mid \<le> v")
      case le: True
      have r: "bisectRight_loop arr v l h = bisectRight_loop arr v (mid + 1) h"
        using eq True le by (simp add: mid_def Let_def)
      have below: "\<forall>i < mid + 1. arr ! i \<le> v"
      proof (intro allI impI)
        fix i assume "i < mid + 1"
        then have "i \<le> mid" by simp
        moreover have "mid < length arr" using mid "1.prems" by simp
        ultimately have "arr ! i \<le> arr ! mid"
          using \<open>sorted arr\<close> by (simp add: sorted_nth_mono)
        with le show "arr ! i \<le> v" by simp
      qed
      have "mid + 1 \<le> h" using mid by simp
      from "1.IH"(1) [OF True mid_def le "1.prems"(1) this "1.prems"(3) below "1.prems"(5)]
      show ?thesis unfolding r using mid by simp
    next
      case gt: False
      have r: "bisectRight_loop arr v l h = bisectRight_loop arr v l mid"
        using eq True gt by (simp add: mid_def Let_def)
      have above: "\<forall>i. mid \<le> i \<and> i < length arr \<longrightarrow> v < arr ! i"
      proof (intro allI impI)
        fix i assume "mid \<le> i \<and> i < length arr"
        then have "arr ! mid \<le> arr ! i"
          using \<open>sorted arr\<close> by (simp add: sorted_nth_mono)
        with gt show "v < arr ! i" by simp
      qed
      have "mid \<le> length arr" using mid "1.prems" by simp
      from "1.IH"(2) [OF True mid_def gt "1.prems"(1) mid(1) this "1.prems"(4) above]
      show ?thesis unfolding r using mid by simp
    qed
  qed
qed

lemma bisectRight_spec:
  assumes "sorted arr"
  shows "bisectRight arr v \<le> length arr"
    and "\<forall>i < bisectRight arr v. arr ! i \<le> v"
    and "\<forall>i. bisectRight arr v \<le> i \<and> i < length arr \<longrightarrow> v < arr ! i"
  using bisectRight_loop_spec [OF assms, of 0 "length arr" v]
  by (simp_all add: bisectRight_def)

lemma bisectRight_mono:
  assumes "sorted arr" and "v \<le> w"
  shows "bisectRight arr v \<le> bisectRight arr w"
proof (rule ccontr)
  assume "\<not> bisectRight arr v \<le> bisectRight arr w"
  then have lt: "bisectRight arr w < bisectRight arr v" by simp
  with bisectRight_spec(1) [OF assms(1), of v] have "bisectRight arr w < length arr" by simp
  with bisectRight_spec(3) [OF assms(1), of w] have "w < arr ! bisectRight arr w" by simp
  moreover from bisectRight_spec(2) [OF assms(1), of v] lt
  have "arr ! bisectRight arr w \<le> v" by simp
  ultimately show False using assms(2) by simp
qed

lemma bisectLeft_loop_bounds:
  "l \<le> h \<Longrightarrow> l \<le> bisectLeft_loop arr v l h \<and> bisectLeft_loop arr v l h \<le> h"
proof (induction arr v l h rule: bisectLeft_loop.induct)
  case (1 arr v l h)
  note eq = bisectLeft_loop.simps [of arr v l h]
  show ?case
  proof (cases "l < h")
    case False
    with eq "1.prems" show ?thesis by simp
  next
    case True
    define mid where "mid = (l + h) div 2"
    have mid: "l \<le> mid" "mid < h" using True by (simp_all add: mid_def)
    show ?thesis
    proof (cases "arr ! mid < v")
      case lt: True
      have r: "bisectLeft_loop arr v l h = bisectLeft_loop arr v (mid + 1) h"
        using eq True lt by (simp add: mid_def Let_def)
      have "mid + 1 \<le> h" using mid by simp
      from "1.IH"(1) [OF True mid_def lt this] show ?thesis unfolding r using mid by simp
    next
      case ge: False
      have r: "bisectLeft_loop arr v l h = bisectLeft_loop arr v l mid"
        using eq True ge by (simp add: mid_def Let_def)
      from "1.IH"(2) [OF True mid_def ge mid(1)] show ?thesis unfolding r using mid by simp
    qed
  qed
qed

lemma bisectLeft_le_length: "bisectLeft arr v \<le> length arr"
  using bisectLeft_loop_bounds [of 0 "length arr" arr v] by (simp add: bisectLeft_def)


lemma chain_sorted:
  "chain a spans b \<Longrightarrow>
   sorted_wrt (<) (map fst spans) \<and> sorted_wrt (<) (map snd spans) \<and>
   (\<forall>p \<in> set spans. a \<le> fst p \<and> a < snd p)"
proof (induction spans arbitrary: a)
  case Nil
  then show ?case by simp
next
  case (Cons p spans)
  obtain s e where p: "p = (s, e)" by (cases p)
  from Cons.prems p have h: "s = a" "s < e" "chain e spans b" by simp_all
  from Cons.IH [OF h(3)] have ih: "sorted_wrt (<) (map fst spans)"
    "sorted_wrt (<) (map snd spans)" "\<forall>q \<in> set spans. e \<le> fst q \<and> e < snd q"
    by simp_all
  show ?case using p h(1,2) ih by fastforce
qed

lemma coveredSentenceRange_Some:
  assumes "coveredSentenceRange spans rs re = Some (l, h)"
  shows "l \<le> h \<and> h < length spans \<and> l = bisectRight (map snd spans) rs"
proof -
  have "int (bisectLeft (map fst spans) re) - 1 < int (length spans)"
    using bisectLeft_le_length [of "map fst spans" re] by simp
  with assms show ?thesis
    by (auto simp: coveredSentenceRange_def Let_def split: if_splits)
qed

lemma stage1Candidates_ok:
  "c \<in> set (stage1Candidates regs tNorm spans) \<Longrightarrow> okCand spans c"
  by (auto simp: stage1Candidates_def okCand_def Let_def
      split: option.splits dest!: coveredSentenceRange_Some [OF sym])

lemma stage2Candidates_ok:
  "c \<in> set (stage2Candidates regs tagged tNorm spans) \<Longrightarrow> okCand spans c"
  by (auto simp: stage2Candidates_def okCand_def Let_def
      split: option.splits dest!: coveredSentenceRange_Some [OF sym])

lemma contrastCandidates_ok:
  "c \<in> set (contrastCandidates pf text) \<Longrightarrow> okCand (sentenceSpans (normalizeText text)) c"
  by (auto simp: contrastCandidates_def Let_def
      split: option.splits if_splits dest: stage1Candidates_ok stage2Candidates_ok)

lemma merge_loop_inv:
  "\<forall>c \<in> set (merged @ cur # rest). okCand spans c \<Longrightarrow>
   sorted_wrt (\<lambda>a b. hi a < lo b) (merged @ [cur]) \<Longrightarrow>
   (\<forall>c \<in> set (merge_loop merged cur rest). okCand spans c) \<and>
   sorted_wrt (\<lambda>a b. hi a < lo b) (merge_loop merged cur rest)"
proof (induction rest arbitrary: merged cur)
  case Nil
  then show ?case by simp
next
  case (Cons it rest)
  show ?case
  proof (cases "lo it \<le> hi cur")
    case True
    define cur' where "cur' = cur\<lparr>hi := max (hi cur) (hi it), raw_end := max (raw_end cur) (raw_end it)\<rparr>"
    have ok: "okCand spans cur'"
      using Cons.prems(1) by (auto simp: okCand_def cur'_def)
    have 1: "\<forall>c \<in> set (merged @ cur' # rest). okCand spans c"
      using Cons.prems(1) ok by auto
    have 2: "sorted_wrt (\<lambda>a b. hi a < lo b) (merged @ [cur'])"
      using Cons.prems(2) by (simp add: sorted_wrt_append cur'_def)
    from Cons.IH [OF 1 2] True show ?thesis by (simp add: cur'_def)
  next
    case False
    have 1: "\<forall>c \<in> set ((merged @ [cur]) @ it # rest). okCand spans c"
      using Cons.prems(1) by auto
    have okc: "lo cur \<le> hi cur" using Cons.prems(1) by (simp add: okCand_def)
    have 2: "sorted_wrt (\<lambda>a b. hi a < lo b) ((merged @ [cur]) @ [it])"
      using Cons.prems(2) False okc by (fastforce simp: sorted_wrt_append)
    from Cons.IH [OF 1 2] False show ?thesis by simp
  qed
qed

lemma mergeIntervals_inv:
  assumes "\<forall>c \<in> set items. okCand spans c"
  shows "(\<forall>c \<in> set (mergeIntervals items). okCand spans c) \<and>
         sorted_wrt (\<lambda>a b. hi a < lo b) (mergeIntervals items)"
proof (cases "items = []")
  case True
  then show ?thesis by (simp add: mergeIntervals_def)
next
  case False
  define srt where "srt = sort_key sortKey items"
  have "length srt = length items" by (simp add: srt_def)
  with False have ne: "srt \<noteq> []" by auto
  then have hdtl: "hd srt # tl srt = srt" by simp
  have "set srt = set items" by (simp add: srt_def)
  with assms hdtl have 1: "\<forall>c \<in> set ([] @ hd srt # tl srt). okCand spans c" by simp
  have 2: "sorted_wrt (\<lambda>a b. hi a < lo b) ([] @ [hd srt])" by simp
  from merge_loop_inv [OF 1 2] False show ?thesis
    by (simp add: mergeIntervals_def Let_def srt_def)
qed


lemma chain_starts_mono:
  assumes "chain a spans b" and "i < j" and "j < length spans"
  shows "fst (spans ! i) < fst (spans ! j)"
proof -
  from chain_sorted [OF assms(1)] have "sorted_wrt (<) (map fst spans)" by simp
  from sorted_wrt_nth_less [OF this, of i j] assms(2,3) show ?thesis by simp
qed

lemma chain_ends_sorted:
  assumes "chain a spans b"
  shows "sorted (map snd spans)"
proof -
  from chain_sorted [OF assms] have "sorted_wrt (<) (map snd spans)" by simp
  then show ?thesis by (rule sorted_wrt_mono_rel [rotated]) simp
qed

lemma example_normalizeText: "normalizeText (js ''Hi. Yo. No.'') = js ''Hi. Yo. No.''"
  by (simp add: normalizeText_def replaceUnit_def js_def)

lemma example_js: "js ''Hi. Yo. No.'' = [72, 105, 46, 32, 89, 111, 46, 32, 78, 111, 46]"
  by (simp add: js_def)

lemma example_sentenceSpans: "sentenceSpans [72, 105, 46, 32, 89, 111, 46, 32, 78, 111, 46] = [(0, 3), (3, 7), (7, 11)]"
  by (simp add: sentenceSpans_def sentenceSpans_loop.simps sentSplit_exec.simps sentSplit_at_def isTerm_def)

lemma csr:
  "coveredSentenceRange [(0, 3), (3, 7), (7, 11)] 5 8 = Some (1, 2)"
  "coveredSentenceRange [(0, 3), (3, 7), (7, 11)] 0 2 = Some (0, 0)"
  "coveredSentenceRange [(0, 3), (3, 7), (7, 11)] 4 6 = Some (1, 1)"
  by (simp_all add: coveredSentenceRange_def bisectRight_def bisectLeft_def
     bisectRight_loop.simps bisectLeft_loop.simps Let_def)

lemma example_contrastMerged: "map (\<lambda>c. (lo c, hi c, raw_start c, raw_end c)) (contrastMerged examplePlatform (js ''Hi. Yo. No.'')) = [(0, 0, 0, 2), (1,2,4,8)]"
  unfolding contrastMerged_def contrastCandidates_def example_normalizeText unfolding example_js
  apply (simp add: examplePlatform_def stage1Candidates_def regexMatches_def Let_def example_sentenceSpans)
  apply (simp add: coveredSentenceRange_def bisectRight_def bisectLeft_def
     bisectRight_loop.simps bisectLeft_loop.simps Let_def)
  apply (simp add: mergeIntervals_def sortKey_def Let_def)
  done

text \<open>
  C2. For every text (and every pair of registries and every tagger) the list returned by
  \<open>extractContrastMatches\<close> is the image, in order, of the merged groups; the groups'
  ranges \<open>[lo, hi]\<close> of span indices are pairwise disjoint and do not share an index
  (\<open>hi\<close> of an earlier group is below \<open>lo\<close> of every later one), and the groups are in
  strictly increasing order of their raw start offset and of the start offset of their
  sentence block.
\<close>

theorem extractContrastMatches_disjoint_sorted:
  "extractContrastMatches pf text =
     map (contrastResult (normalizeText text) (sentenceSpans (normalizeText text)))
       (contrastMerged pf text) \<and>
   list_all (\<lambda>a. lo a \<le> hi a \<and> hi a < length (sentenceSpans (normalizeText text)))
     (contrastMerged pf text) \<and>
   sorted_wrt (\<lambda>a b. hi a < lo b) (contrastMerged pf text) \<and>
   sorted_wrt (\<lambda>a b. raw_start a < raw_start b) (contrastMerged pf text) \<and>
   sorted_wrt (\<lambda>a b. fst (sentenceSpans (normalizeText text) ! lo a) <
                      fst (sentenceSpans (normalizeText text) ! lo b)) (contrastMerged pf text)"
proof -
  define spans where "spans = sentenceSpans (normalizeText text)"
  define merged where "merged = contrastMerged pf text"
  have ch: "chain 0 spans (length (normalizeText text))"
    unfolding spans_def by (rule sentenceSpans_chain)
  have srt: "sorted (map snd spans)" by (rule chain_ends_sorted [OF ch])
  have "\<forall>c \<in> set (contrastCandidates pf text). okCand spans c"
    unfolding spans_def by (blast intro: contrastCandidates_ok)
  from mergeIntervals_inv [OF this]
  have ok: "\<forall>c \<in> set merged. okCand spans c"
    and dis: "sorted_wrt (\<lambda>a b. hi a < lo b) merged"
    by (simp_all add: merged_def contrastMerged_def)
  have 1: "extractContrastMatches pf text = map (contrastResult (normalizeText text) spans) merged"
    by (simp add: extractContrastMatches_def Let_def spans_def merged_def)
  have 2: "list_all (\<lambda>a. lo a \<le> hi a \<and> hi a < length spans) merged"
    using ok unfolding list_all_iff okCand_def by blast
  have 3: "sorted_wrt (\<lambda>a b. raw_start a < raw_start b) merged"
  proof (rule sorted_wrt_mono_rel [OF _ dis])
    fix x y assume x: "x \<in> set merged" and y: "y \<in> set merged" and xy: "hi x < lo y"
    from ok x y have "lo x \<le> hi x" "lo x = bisectRight (map snd spans) (raw_start x)"
      "lo y = bisectRight (map snd spans) (raw_start y)"
      unfolding okCand_def by blast+
    with xy have lt: "bisectRight (map snd spans) (raw_start x) <
        bisectRight (map snd spans) (raw_start y)" by simp
    show "raw_start x < raw_start y"
    proof (rule ccontr)
      assume "\<not> raw_start x < raw_start y"
      then have "raw_start y \<le> raw_start x" by simp
      from bisectRight_mono [OF srt this] lt show False by simp
    qed
  qed
  have 4: "sorted_wrt (\<lambda>a b. fst (spans ! lo a) < fst (spans ! lo b)) merged"
  proof (rule sorted_wrt_mono_rel [OF _ dis])
    fix x y assume x: "x \<in> set merged" and y: "y \<in> set merged" and xy: "hi x < lo y"
    from ok x y have "lo x \<le> hi x" "lo y \<le> hi y" "hi y < length spans"
      unfolding okCand_def by blast+
    with xy have "lo x < lo y" "lo y < length spans" by simp_all
    from chain_starts_mono [OF ch this] show "fst (spans ! lo x) < fst (spans ! lo y)" .
  qed
  show ?thesis using 1 2 dis 3 4 unfolding spans_def merged_def by blast
qed

theorem extractContrastMatches_disjoint_sorted_witness:
  "map (\<lambda>c. (lo c, hi c, raw_start c, raw_end c))
     (contrastMerged examplePlatform (js ''Hi. Yo. No.'')) = [(0, 0, 0, 2), (1, 2, 4, 8)] \<and>
   sorted_wrt (\<lambda>a b. hi a < lo b) (contrastMerged examplePlatform (js ''Hi. Yo. No.'')) \<and>
   sorted_wrt (\<lambda>a b. raw_start a < raw_start b)
     (contrastMerged examplePlatform (js ''Hi. Yo. No.''))"
  using extractContrastMatches_disjoint_sorted [of examplePlatform "js ''Hi. Yo. No.''"]
    example_contrastMerged
  by blast

subsection \<open>The frequency table\<close>

lemma map_get_map_set:
  "map_get (map_set k v m) k' = (if k' = k then Some v else map_get m k')"
  by (induction m) (auto simp: map_get_def)

lemma map_get_fold_set:
  "map_get (fold (\<lambda>w m'. map_set w z m') ws m) w =
     (if w \<in> set ws then Some z else map_get m w)"
  by (induction ws arbitrary: m) (auto simp: map_get_map_set)

lemma bins_loop_get_none:
  "\<forall>b \<in> set bins. \<not> bucketHas b w \<Longrightarrow> map_get (bins_loop i bins m) w = map_get m w"
proof (induction bins arbitrary: i m)
  case Nil
  then show ?case by simp
next
  case (Cons b bins)
  from Cons.prems have nb: "\<not> bucketHas b w" and rest: "\<forall>b \<in> set bins. \<not> bucketHas b w"
    by simp_all
  show ?case
    using Cons.IH [OF rest] nb
    by (cases b) (simp_all add: bucketHas_def map_get_fold_set)
qed

lemma bins_loop_get_last:
  "j < length bins \<Longrightarrow> bucketHas (bins ! j) w \<Longrightarrow>
   \<forall>k. j < k \<and> k < length bins \<longrightarrow> \<not> bucketHas (bins ! k) w \<Longrightarrow>
   map_get (bins_loop i bins m) w = Some (bucketZipf (i + j))"
proof (induction bins arbitrary: i j m)
  case Nil
  then show ?case by simp
next
  case (Cons b bins)
  show ?case
  proof (cases j)
    case 0
    with Cons.prems(2) obtain ws where b: "b = Some ws" and w: "w \<in> set ws"
      by (cases b) (simp_all add: bucketHas_def)
    have "\<forall>b' \<in> set bins. \<not> bucketHas b' w"
    proof
      fix b' assume "b' \<in> set bins"
      then obtain k where k: "k < length bins" "bins ! k = b'"
        by (auto simp: in_set_conv_nth)
      with Cons.prems(3) [rule_format, of "Suc k"] 0 show "\<not> bucketHas b' w" by simp
    qed
    from bins_loop_get_none [OF this] b w 0 show ?thesis
      by (auto simp: map_get_fold_set)
  next
    case (Suc j')
    have 1: "j' < length bins" using Cons.prems(1) Suc by simp
    have 2: "bucketHas (bins ! j') w" using Cons.prems(2) Suc by simp
    have 3: "\<forall>k. j' < k \<and> k < length bins \<longrightarrow> \<not> bucketHas (bins ! k) w"
    proof (intro allI impI)
      fix k assume "j' < k \<and> k < length bins"
      with Cons.prems(3) [rule_format, of "Suc k"] Suc show "\<not> bucketHas (bins ! k) w" by simp
    qed
    from Cons.IH [OF 1 2 3] Suc show ?thesis by simp
  qed
qed

text \<open>
  C4 (as amended). \<open>loadWordfreq\<close> assigns with \<open>map.set\<close>, which overwrites: a word that
  appears in several bins keeps the value of the last (highest-index) bin that contains
  it, \<open>(900 - j) / 100\<close> for bin \<open>j\<close>.
\<close>

theorem loadWordfreq_last_bucket_wins:
  assumes "loadWordfreq header bins = Inr wfq"
    and "j < length bins" and "bucketHas (bins ! j) w"
    and "\<forall>k. j < k \<and> k < length bins \<longrightarrow> \<not> bucketHas (bins ! k) w"
  shows "map_get (wf_map wfq) w = Some (bucketZipf j) \<and> bucketZipf j = (900 - real j) / 100"
proof -
  from assms(1) have "wf_map wfq = bins_loop 0 bins []"
    by (auto simp: loadWordfreq_def split: option.splits if_splits)
  with bins_loop_get_last [OF assms(2,3,4), of 0 "[]"] show ?thesis
    by (simp add: bucketZipf_def Let_def)
qed

lemma example_load:
  "loadWordfreq (Some exampleHeader) [Some [js ''the''], Some [js ''the''], None, Some [js ''cat'']] =
     Inr \<lparr>wf_map = [(js ''the'', 899 / 100), (js ''cat'', 897 / 100)], minZipf = 0\<rparr>"
  by (simp add: loadWordfreq_def exampleHeader_def bucketZipf_def js_def)

text \<open>
  C4 as stated (the first bin wins) fails: with \<open>the\<close> in bins 0 and 1, the table holds
  8.99, the value of bin 1, and not 9, the value of bin 0.
\<close>

theorem loadWordfreq_first_wins_counterexample:
  "loadWordfreq (Some exampleHeader) [Some [js ''the''], Some [js ''the''], None, Some [js ''cat'']] =
     Inr \<lparr>wf_map = [(js ''the'', 899 / 100), (js ''cat'', 897 / 100)], minZipf = 0\<rparr> \<and>
   bucketZipf 0 = 9 \<and> (9 :: real) \<noteq> 899 / 100"
  using example_load by (simp add: bucketZipf_def)

theorem loadWordfreq_last_bucket_wins_witness:
  "map_get [(js ''the'', 899 / 100), (js ''cat'', 897 / 100 :: real)] (js ''the'') = Some (bucketZipf 1) \<and>
   bucketZipf 1 = (900 - real (1::nat)) / 100"
proof -
  let ?bins = "[Some [js ''the''], Some [js ''the''], None, Some [js ''cat'']]"
  have 2: "(1::nat) < length ?bins" by simp
  have 3: "bucketHas (?bins ! 1) (js ''the'')" by (simp add: bucketHas_def)
  have 4: "\<forall>k. 1 < k \<and> k < length ?bins \<longrightarrow> \<not> bucketHas (?bins ! k) (js ''the'')"
  proof (intro allI impI)
    fix k assume "1 < k \<and> k < length ?bins"
    then have "k = 2 \<or> k = 3" by auto
    then show "\<not> bucketHas (?bins ! k) (js ''the'')"
      by (auto simp: bucketHas_def js_def)
  qed
  from loadWordfreq_last_bucket_wins [OF example_load 2 3 4] show ?thesis by simp
qed

subsection \<open>The human baseline\<close>


















subsection \<open>Zipf lookup and the slop index\<close>

lemma fold_zipf_Some:
  "fold (\<lambda>t z. Some (case z of None \<Rightarrow> g t | Some a \<Rightarrow> min a (g t))) ts (Some (a::real)) =
     Some (fold min (map g ts) a)"
proof (induction ts arbitrary: a)
  case Nil
  show ?case by simp
next
  case (Cons t ts)
  have "min a (g t) = min (g t) a" by (rule min.commute)
  with Cons [of "min a (g t)"] show ?case by simp
qed

lemma combineZipfSimple_Min:
  assumes "tokens \<noteq> []"
  shows "combineZipfSimple tokens g = Min (g ` set tokens)"
proof -
  obtain t ts where ts: "tokens = t # ts" using assms by (cases tokens) auto
  have "combineZipfSimple tokens g = fold min (map g ts) (g t)"
    by (simp add: combineZipfSimple_def ts fold_zipf_Some)
  also have "\<dots> = Min (set (g t # map g ts))"
    by (simp only: Min.set_eq_fold)
  finally show ?thesis by (simp add: ts)
qed

text \<open>
  C6 (as amended). \<open>zipfFrequency\<close> is total. For null, undefined and the empty string it
  returns 0, whatever the configured default \<open>minZipf\<close>. Otherwise the input is normalized
  (curly quotes folded, lower case, trimmed) and tokenized; with more than one token the
  result is the minimum over the tokens of their value in the table, a token that is not
  in the table counting as \<open>minZipf\<close>; with at most one token it is the value of the whole
  normalized input, or \<open>minZipf\<close> when that is not in the table.
\<close>

theorem zipfFrequency_cases:
  "zipfFrequency lc wfq JNull = 0 \<and>
   zipfFrequency lc wfq JUndefined = 0 \<and>
   zipfFrequency lc wfq (JString []) = 0 \<and>
   (s \<noteq> [] \<and> 1 < length (wordMatches (trim (lc (uncurlQuotes s)))) \<longrightarrow>
      zipfFrequency lc wfq (JString s) =
        Min (getOr wfq ` set (wordMatches (trim (lc (uncurlQuotes s)))))) \<and>
   (s \<noteq> [] \<and> length (wordMatches (trim (lc (uncurlQuotes s)))) \<le> 1 \<longrightarrow>
      zipfFrequency lc wfq (JString s) = getOr wfq (trim (lc (uncurlQuotes s)))) \<and>
   (map_get (wf_map wfq) w = None \<longrightarrow> getOr wfq w = minZipf wfq) \<and>
   (map_get (wf_map wfq) w = Some z \<longrightarrow> getOr wfq w = z)"
proof -
  have m: "zipfFrequency lc wfq (JString s) =
        Min (getOr wfq ` set (wordMatches (trim (lc (uncurlQuotes s)))))"
    if "s \<noteq> []" "1 < length (wordMatches (trim (lc (uncurlQuotes s))))"
  proof -
    from that(2) have "wordMatches (trim (lc (uncurlQuotes s))) \<noteq> []" by auto
    from combineZipfSimple_Min [OF this] that show ?thesis
      by (simp add: zipfFrequency_def normalizeWord_en_def Let_def)
  qed
  have s: "zipfFrequency lc wfq (JString s) = getOr wfq (trim (lc (uncurlQuotes s)))"
    if "s \<noteq> []" "length (wordMatches (trim (lc (uncurlQuotes s)))) \<le> 1"
    using that by (simp add: zipfFrequency_def normalizeWord_en_def Let_def)
  show ?thesis using m s
    by (simp add: zipfFrequency_def getOr_def)
qed

lemma example_phrase:
  "uncurlQuotes (js ''The  DOG '') = js ''The  DOG ''"
  "asciiLower (js ''The  DOG '') = js ''the  dog ''"
  "trim (js ''the  dog '') = js ''the  dog''"
  "wordMatches (js ''the  dog'') = [js ''the'', js ''dog'']"
     apply (simp add: uncurlQuotes_def replaceUnit_def js_def)
    apply (simp add: asciiLower_def isUpperAZ_def js_def)
   apply (simp add: trim_def isJsSpace_def js_def)
  apply (simp add: js_def wordMatches.simps wordTail.simps isAlnum_def isUpperAZ_def
      isLowerAZ_def isDigit_def)
  done

theorem zipfFrequency_cases_witness:
  "zipfFrequency asciiLower exampleWordfreq (JString (js ''The  DOG '')) = 1 \<and>
   zipfFrequency asciiLower exampleWordfreq (JString []) = 0"
proof -
  have g: "getOr exampleWordfreq (js ''the'') = 7" "getOr exampleWordfreq (js ''dog'') = 1"
    by (simp_all add: getOr_def exampleWordfreq_def map_get_def js_def)
  have ne: "js ''The  DOG '' \<noteq> []" by (simp add: js_def)
  have "zipfFrequency asciiLower exampleWordfreq (JString (js ''The  DOG '')) =
          Min (getOr exampleWordfreq ` set [js ''the'', js ''dog''])"
    using zipfFrequency_cases [of asciiLower exampleWordfreq "js ''The  DOG ''"] ne
    by (simp add: example_phrase)
  moreover have "zipfFrequency asciiLower exampleWordfreq (JString []) = 0"
    using zipfFrequency_cases [of asciiLower exampleWordfreq] by simp
  ultimately show ?thesis by (simp add: g)
qed

text \<open>
  C6 as stated fails in its last part: with the configured default 1, null input gives
  0 and not the default.
\<close>

theorem zipfFrequency_default_counterexample:
  "zipfFrequency asciiLower exampleWordfreq JNull = 0 \<and> minZipf exampleWordfreq = 1"
  by (simp add: zipfFrequency_def exampleWordfreq_def)

text \<open>
  C7 (as amended). On the empty token list, for any \<open>trackHits\<close> and any lexicon,
  \<open>computeSlopIndex\<close> returns word score 0 and trigram score 0, and both hit fields are
  null: no hit collection is built, even when \<open>trackHits\<close> is set. No error is possible.
\<close>

theorem computeSlopIndex_empty:
  "computeSlopIndex st [] trackHits =
     \<lparr>wordScore = 0, trigramScore = 0, wordHits = None, trigramHits = None\<rparr>"
  by (simp add: computeSlopIndex_def)

theorem computeSlopIndex_empty_witness:
  "wordScore (computeSlopIndex exampleStores [] True) = 0 \<and>
   trigramScore (computeSlopIndex exampleStores [] True) = 0 \<and>
   wordHits (computeSlopIndex exampleStores [] True) = None \<and>
   trigramHits (computeSlopIndex exampleStores [] True) = None"
  using computeSlopIndex_empty [of exampleStores True] by simp

text \<open>
  C7 as stated (both hit collections empty) fails when \<open>trackHits\<close> is set: the hit fields
  are null, not empty collections, whereas a non-empty token list without any hit gives
  empty collections.
\<close>

theorem computeSlopIndex_empty_counterexample:
  "wordHits (computeSlopIndex exampleStores [] True) \<noteq> Some [] \<and>
   trigramHits (computeSlopIndex exampleStores [] True) \<noteq> Some [] \<and>
   wordHits (computeSlopIndex exampleStores [js ''cat''] True) = Some [] \<and>
   trigramHits (computeSlopIndex exampleStores [js ''cat''] True) = Some []"
  by (simp add: computeSlopIndex_def exampleStores_def countHit_def sortHits_def js_def)

subsection \<open>The analysis of a text\<close>

lemma runs_Nil: "runs P [] = []"
  by (simp add: runs.simps)

lemma wordsOnlyLower_Nil: "lc [] = [] \<Longrightarrow> wordsOnlyLower lc [] = []"
  by (simp add: wordsOnlyLower_def normalizeQuotes_def runs_Nil)

lemma computeSlopScore_zero: "computeSlopScore 0 0 0 > 0"
  by (simp add: computeSlopScore_def normalizeValue_def slop_words_range_def
      slop_trigrams_range_def contrast_range_def Let_def)

text \<open>
  C8. On the empty string (given that lower-casing the empty string gives the empty
  string), \<open>analyzeText\<close> returns the all-zero result: no characters, no words, score 0 and
  every metric 0, \<open>unique_words\<close> included, with no optional field; the score is not what
  \<open>computeSlopScore\<close> gives for zero component scores, which is positive.
\<close>

theorem analyzeText_empty:
  assumes "toLowerCase pf [] = []"
  shows "analyzeText pf st [] options =
     \<lparr>r_file = file options, total_chars = 0, total_words = 0, slop_score = 0,
      metrics =
        \<lparr>slop_words_per_1k = 0, slop_trigrams_per_1k = 0, ngram_repetition_score = 0,
         not_x_but_y_per_1k_chars = 0,
         lexical_diversity =
           \<lparr>mattr_500 = 0, type_token_ratio = 0, unique_words = 0, ld_total_words = 0\<rparr>,
         vocab_level = 0, avg_sentence_length = 0, avg_paragraph_length = 0,
         dialogue_frequency = 0\<rparr>,
      slop_word_hits = None, slop_trigram_hits = None, top_over_represented = None,
      contrast_matches = None\<rparr> \<and>
   slop_score (analyzeText pf st [] options) \<noteq> computeSlopScore 0 0 0"
proof -
  have "alphaTokens (wordsOnlyLower (toLowerCase pf) []) = []"
    using wordsOnlyLower_Nil [of "toLowerCase pf"] assms by (simp add: alphaTokens_def)
  then have r: "analyzeText pf st [] options =
     \<lparr>r_file = file options, total_chars = 0, total_words = 0, slop_score = 0,
      metrics = zeroMetrics,
      slop_word_hits = None, slop_trigram_hits = None, top_over_represented = None,
      contrast_matches = None\<rparr>"
    by (simp add: analyzeText_def Let_def)
  show ?thesis using computeSlopScore_zero unfolding r zeroMetrics_def by simp
qed

theorem analyzeText_empty_witness:
  "total_chars (analyzeText examplePlatform exampleStores [] exampleOptions) = 0 \<and>
   total_words (analyzeText examplePlatform exampleStores [] exampleOptions) = 0 \<and>
   slop_score (analyzeText examplePlatform exampleStores [] exampleOptions) = 0 \<and>
   unique_words (lexical_diversity
     (metrics (analyzeText examplePlatform exampleStores [] exampleOptions))) = 0"
proof -
  have "toLowerCase examplePlatform [] = []"
    by (simp add: examplePlatform_def asciiLower_def)
  from analyzeText_empty [OF this, of exampleStores exampleOptions] show ?thesis by simp
qed

text \<open>
  C9. When the contrast matches are requested, the field \<open>contrast_matches\<close> is the first
  100 elements of the detector's list, so it has at most 100 entries; it is absent only
  on the early return for a text without any word.
\<close>

theorem analyzeText_contrast_matches_truncated:
  assumes "includeContrastMatches options"
  shows "(case contrast_matches (analyzeText pf st text options) of
            None \<Rightarrow> total_words (analyzeText pf st text options) = 0
          | Some ms \<Rightarrow> ms = take 100 (extractContrastMatches pf text) \<and> length ms \<le> 100)"
  using assms by (simp add: analyzeText_def Let_def)

lemma example_tokens:
  "alphaTokens (wordsOnlyLower asciiLower (js ''Hi. Yo. No.'')) = [js ''hi'', js ''yo'', js ''no'']"
  apply (simp add: wordsOnlyLower_def js_def asciiLower_def isUpperAZ_def normalizeQuotes_def)
  apply (simp add: runs.simps isLowerAZ_def stripApostrophes_def alphaTokens_def isAlphaToken_def)
  done

theorem analyzeText_contrast_matches_truncated_witness:
  "includeContrastMatches exampleOptions \<and>
   contrast_matches (analyzeText examplePlatform exampleStores (js ''Hi. Yo. No.'') exampleOptions) =
     Some (take 100 (extractContrastMatches examplePlatform (js ''Hi. Yo. No.'')))"
proof -
  have o: "includeContrastMatches exampleOptions" by (simp add: exampleOptions_def)
  have "toLowerCase examplePlatform = asciiLower" by (simp add: examplePlatform_def)
  then have "total_words (analyzeText examplePlatform exampleStores (js ''Hi. Yo. No.'') exampleOptions) = 3"
    by (simp add: analyzeText_def example_tokens Let_def)
  with analyzeText_contrast_matches_truncated [OF o, of examplePlatform exampleStores "js ''Hi. Yo. No.''"]
  show ?thesis using o by (simp split: option.splits)
qed

text \<open>
  C10. \<open>computeVocabLevel\<close> is never negative, and it is 0 for a text without sentences
  or without words.
\<close>

theorem computeVocabLevel_nonneg:
  "0 \<le> computeVocabLevel text \<and>
   (length (vl_sentences text) = 0 \<or> length (vl_words text) = 0 \<longrightarrow> computeVocabLevel text = 0)"
  by (simp add: computeVocabLevel_def Let_def)

lemma example_vocab:
  "vl_sentences (js ''Hi.'') = [js ''Hi'']" "vl_words (js ''Hi.'') = [js ''Hi'']"
  "countSyllables (js ''Hi'') = 1"
    apply (simp add: vl_sentences_def js_def splitRuns.simps isTerm_def trim_def isJsSpace_def)
   apply (simp add: vl_words_def js_def runs.simps isWordChar_def isAlnum_def isUpperAZ_def
      isLowerAZ_def isDigit_def)
  apply (simp add: countSyllables_def js_def asciiLower_def)
  done

theorem computeVocabLevel_nonneg_witness:
  "computeVocabLevel (js ''Hi.'') = 0 \<and> 0.39 * 1 + 11.8 * 1 - 15.59 < (0::real) \<and>
   vl_words [] = [] \<and> computeVocabLevel [] = 0"
proof -
  have w: "vl_words [] = []" by (simp add: vl_words_def runs.simps)
  have "computeVocabLevel (js ''Hi.'') = 0"
    by (simp add: computeVocabLevel_def example_vocab Let_def)
  moreover have "computeVocabLevel [] = 0"
    using computeVocabLevel_nonneg [of "[]"] w by simp
  ultimately show ?thesis using w by simp
qed

end
